theory Spec2Isabelle
  imports Complex_Main
begin

section \<open>Python values, errors and strings\<close>

text \<open>
  The program is \<^verbatim>\<open>src/timelapse.py\<close>. Exceptions are values of \<open>py_error\<close>; a function
  that can raise returns \<open>py_error + 'a\<close>, with \<open>Inl\<close> the exception. Python strings are
  modelled as \<open>string\<close> with one \<open>char\<close> per code point, which covers the code points
  below 256 (the degree sign is \<open>0xB0\<close>). Python floats are modelled as \<open>real\<close>:
  rounding is not modelled, division by zero raises.
\<close>

datatype py_error =
    TypeError | ValueError | IndexError | KeyError | ZeroDivisionError | OSError | EOFError

text \<open>The values the attribute \<^verbatim>\<open>temperature_text_parser\<close> can hold: its default is a
  function from a string to a string (which can raise); \<^verbatim>\<open>__dict__.update(kwargs)\<close>
  lets a caller store any object there.\<close>

datatype py_value =
    PyNone
  | PyInt int
  | PyStr string
  | PyFunc "string \<Rightarrow> py_error + string"

definition digit_chars :: string where
  "digit_chars = ''0123456789''"

text \<open>\<^verbatim>\<open>str(n)\<close> for a non-negative integer.\<close>

fun str_nat :: "nat \<Rightarrow> string" where
  "str_nat n = (if n < 10 then [digit_chars ! n] else str_nat (n div 10) @ [digit_chars ! (n mod 10)])"

declare str_nat.simps [simp del]

definition str_int :: "int \<Rightarrow> string" where
  "str_int i = (if i < 0 then CHR ''-'' # str_nat (nat (- i)) else str_nat (nat i))"

definition is_digit :: "char \<Rightarrow> bool" where
  "is_digit c = (c \<in> set digit_chars)"

definition digit_val :: "char \<Rightarrow> nat" where
  "digit_val c = (of_char c :: nat) - 48"

text \<open>The characters \<^verbatim>\<open>int()\<close> strips from both ends of a string (code points below 256).\<close>

definition is_space :: "char \<Rightarrow> bool" where
  "is_space c = ((of_char c :: nat) \<in> {9, 10, 11, 12, 13, 28, 29, 30, 31, 32, 133, 160})"

definition strip :: "string \<Rightarrow> string" where
  "strip s = rev (dropWhile is_space (rev (dropWhile is_space s)))"

text \<open>The digit part of a decimal literal: digits, with single underscores allowed
  between digits.\<close>

fun no_double_underscore :: "string \<Rightarrow> bool" where
  "no_double_underscore (a # b # cs) =
     (\<not> (a = CHR ''_'' \<and> b = CHR ''_'') \<and> no_double_underscore (b # cs))"
| "no_double_underscore _ = True"

definition valid_digits :: "string \<Rightarrow> bool" where
  "valid_digits ds =
     (ds \<noteq> [] \<and> is_digit (hd ds) \<and> is_digit (last ds)
      \<and> list_all (\<lambda>c. is_digit c \<or> c = CHR ''_'') ds \<and> no_double_underscore ds)"

definition digits_value :: "string \<Rightarrow> nat" where
  "digits_value ds = fold (\<lambda>c a. 10 * a + digit_val c) (filter is_digit ds) 0"

text \<open>\<^verbatim>\<open>int(s)\<close> for a string \<open>s\<close>: \<^verbatim>\<open>ValueError\<close> unless \<open>s\<close> is an optionally signed
  decimal literal, possibly surrounded by whitespace.\<close>

definition int_of_str :: "string \<Rightarrow> py_error + int" where
  "int_of_str s =
     (case strip s of
        [] \<Rightarrow> Inl ValueError
      | c # cs \<Rightarrow>
          (if c = CHR ''-'' then
             (if valid_digits cs then Inr (- int (digits_value cs)) else Inl ValueError)
           else if c = CHR ''+'' then
             (if valid_digits cs then Inr (int (digits_value cs)) else Inl ValueError)
           else
             (if valid_digits (c # cs) then Inr (int (digits_value (c # cs)))
              else Inl ValueError)))"

text \<open>\<^verbatim>\<open>int(v)\<close>: an integer is returned as it is, a string is parsed, and \<^verbatim>\<open>None\<close> or a
  function object raises \<^verbatim>\<open>TypeError\<close>.\<close>

fun py_int :: "py_value \<Rightarrow> py_error + int" where
  "py_int (PyInt n) = Inr n"
| "py_int (PyStr s) = int_of_str s"
| "py_int PyNone = Inl TypeError"
| "py_int (PyFunc f) = Inl TypeError"

text \<open>\<^verbatim>\<open>s.split(sep)\<close> for a separator of one character.\<close>

fun split_char :: "char \<Rightarrow> string \<Rightarrow> string list" where
  "split_char sep [] = [[]]"
| "split_char sep (c # cs) =
     (if c = sep then [] # split_char sep cs
      else (case split_char sep cs of
              w # ws \<Rightarrow> (c # w) # ws
            | [] \<Rightarrow> [[c]]))"

text \<open>\<^verbatim>\<open>xs[i]\<close> for a non-negative index.\<close>

definition py_index :: "'a list \<Rightarrow> nat \<Rightarrow> py_error + 'a" where
  "py_index xs i = (if i < length xs then Inr (xs ! i) else Inl IndexError)"

text \<open>\<^verbatim>\<open>s.lower()\<close> on code points below 256.\<close>

definition lower_char :: "char \<Rightarrow> char" where
  "lower_char c =
     (let n = (of_char c :: nat)
      in if (65 \<le> n \<and> n \<le> 90) \<or> (192 \<le> n \<and> n \<le> 222 \<and> n \<noteq> 215)
         then char_of (n + 32) else c)"

definition lower :: "string \<Rightarrow> string" where
  "lower s = map lower_char s"

definition endswith :: "string \<Rightarrow> string \<Rightarrow> bool" where
  "endswith s suf = (length suf \<le> length s \<and> drop (length s - length suf) s = suf)"

text \<open>\<^verbatim>\<open>s.endswith(tuple(sufs))\<close>.\<close>

definition endswith_any :: "string \<Rightarrow> string list \<Rightarrow> bool" where
  "endswith_any s sufs = list_ex (endswith s) sufs"

text \<open>\<^verbatim>\<open>os.path.join(a, b)\<close> on POSIX, for two components.\<close>

definition path_join :: "string \<Rightarrow> string \<Rightarrow> string" where
  "path_join a b =
     (if b \<noteq> [] \<and> hd b = CHR ''/'' then b
      else if a = [] \<or> last a = CHR ''/'' then a @ b
      else a @ ''/'' @ b)"

text \<open>The comparison \<^verbatim>\<open><\<close> on strings: lexicographic on code points.\<close>

fun str_less :: "string \<Rightarrow> string \<Rightarrow> bool" where
  "str_less [] [] = False"
| "str_less [] (y # ys) = True"
| "str_less (x # xs) [] = False"
| "str_less (x # xs) (y # ys) =
     (if x = y then str_less xs ys else (of_char x :: nat) < of_char y)"

text \<open>\<^verbatim>\<open>format(n, '0' + str(w))\<close> for a non-negative integer \<open>n\<close>: the format
  specification is read as the zero flag followed by a decimal width. Other
  specifications are not modelled (\<^verbatim>\<open>ValueError\<close> stands for them).\<close>

definition format_nat :: "nat \<Rightarrow> string \<Rightarrow> py_error + string" where
  "format_nat n spec =
     (case spec of
        [] \<Rightarrow> Inr (str_nat n)
      | f # width \<Rightarrow>
          (if f = CHR ''0'' \<and> list_all is_digit width then
             (let w = digits_value width; s = str_nat n
              in Inr (replicate (w - length s) (CHR ''0'') @ s))
           else Inl ValueError))"

text \<open>The default parser of the module.\<close>

definition parse_temperature_text :: "string \<Rightarrow> py_error + string" where
  "parse_temperature_text input_text =
     (let degrees = split_char (CHR 0xB0) input_text
      in case py_index degrees 1 of
           Inl e \<Rightarrow> Inl e
         | Inr d \<Rightarrow> py_index (split_char (CHR '' '') d) 1)"


section \<open>Data model\<close>

text \<open>A PIL image is modelled by the path it was opened from and the drawing operations
  applied to it, in order. Colours and the font object are passed unchanged from the
  configuration to the drawing primitives and are left out of the operations.\<close>

datatype draw_op =
    Rectangle real real real real
  | Line real real real real nat
  | Ellipse real real real real
  | Text real real string

record pil_image =
  source :: string
  drawn :: "draw_op list"

text \<open>The value of the dictionary key \<^verbatim>\<open>'order'\<close>: the file name, or the number returned
  by the ordering function.\<close>

datatype order_key = NameKey string | NumKey real

text \<open>One dictionary of \<^verbatim>\<open>image_series\<close>. The keys \<^verbatim>\<open>'file_name'\<close> and \<^verbatim>\<open>'order'\<close> are set
  when the dictionary is created; a key that may be absent is an option (reading an
  absent key raises \<^verbatim>\<open>KeyError\<close>). The key \<^verbatim>\<open>'image'\<close> is the field \<open>image_val\<close>.\<close>

record image_record =
  image_val :: "pil_image option"
  file_name :: string
  temp :: "int option"
  order :: order_key
  index :: "nat option"
  temps :: "int list option"

text \<open>The attributes of a \<^verbatim>\<open>TimeLapse\<close> object. The attribute \<^verbatim>\<open>order\<close> is the field
  \<open>order_fn\<close>. The colour attributes and \<^verbatim>\<open>process_threads\<close> are left out: no result
  modelled here depends on them.\<close>

record timelapse =
  images_per_second :: int
  framerate :: int
  ocr_binding_box :: "int \<times> int \<times> int \<times> int"
  temperature_text_parser :: py_value
  images_directory :: "string option"
  save_directory :: "string option"
  graph_label_font :: string
  graph_height :: int
  graph_width :: int
  padding :: int
  graph_height_margin :: int
  graph_width_margin :: int
  ticker_width :: int
  plot_point_size :: "int option"
  valid_file_extensions :: "string list"
  order_fn :: "(string \<Rightarrow> real) option"
  deg_min :: "int option"
  deg_max :: "int option"
  pixels_per_degree :: real
  total_frames :: nat
  image_series :: "image_record list"

text \<open>The object \<^verbatim>\<open>__init__\<close> builds when no keyword argument is given.\<close>

definition timelapse_init :: timelapse where
  "timelapse_init =
     \<lparr> images_per_second = 15,
       framerate = 25,
       ocr_binding_box = (0, 3174, 4412, 3308),
       temperature_text_parser = PyFunc parse_temperature_text,
       images_directory = None,
       save_directory = None,
       graph_label_font = ''Courier New'',
       graph_height = 650,
       graph_width = 4086,
       padding = 60,
       graph_height_margin = 75,
       graph_width_margin = 190,
       ticker_width = 20,
       plot_point_size = None,
       valid_file_extensions = [''.png'', ''.jpg'', ''.jpeg''],
       order_fn = None,
       deg_min = None,
       deg_max = None,
       pixels_per_degree = 1,
       total_frames = 1,
       image_series = [] \<rparr>"

text \<open>What the program reads from and does to the outside world: the directory listing,
  opening an image file, the OCR engine on a cropped image, the line the user types
  after an image is shown, loading a font, writing and reading a file, and running a
  shell command (which returns its exit status).\<close>

record environment =
  listdir :: "string \<Rightarrow> py_error + string list"
  image_open_error :: "string \<Rightarrow> py_error option"
  image_to_string :: "pil_image \<Rightarrow> int \<times> int \<times> int \<times> int \<Rightarrow> py_error + string"
  user_input :: "pil_image \<Rightarrow> py_error + string"
  truetype_error :: "string \<Rightarrow> py_error option"
  write_error :: "string \<Rightarrow> py_error option"
  read_error :: "string \<Rightarrow> py_error option"
  os_system :: "string \<Rightarrow> int"

datatype file_content = Saved pil_image | CopyOf string

section \<open>Graph geometry\<close>

definition compute_pixels_per_temp :: "timelapse \<Rightarrow> py_error + real" where
  "compute_pixels_per_temp self =
     (case deg_max self of
        None \<Rightarrow> Inl TypeError
      | Some mx \<Rightarrow>
          (case deg_min self of
             None \<Rightarrow> Inl TypeError
           | Some mn \<Rightarrow>
               (let temp_range = real_of_int mx - real_of_int mn;
                    y_axis_height = real_of_int (graph_height self - padding self * 2)
                in if temp_range = 0 then Inl ZeroDivisionError
                   else Inr (y_axis_height / temp_range))))"

definition get_temp_y_point :: "timelapse \<Rightarrow> int \<Rightarrow> py_error + real" where
  "get_temp_y_point self t =
     (case deg_min self of
        None \<Rightarrow> Inl TypeError
      | Some mn \<Rightarrow>
          Inr (real_of_int (graph_height_margin self + graph_height self - padding self)
               - real_of_int (t - mn) * pixels_per_degree self))"

definition get_x_point :: "timelapse \<Rightarrow> nat \<Rightarrow> py_error + real" where
  "get_x_point self idx =
     (let x_axis_length = graph_width self - padding self * 2;
          frames = int (length (image_series self)) - 1
      in if frames = 0 then Inl ZeroDivisionError
         else
           (let pixels_per_frame = real_of_int x_axis_length / real_of_int frames
            in Inr (real_of_int (graph_width_margin self + padding self)
                    + pixels_per_frame * real idx)))"

definition draw_op_on :: "pil_image \<Rightarrow> draw_op \<Rightarrow> pil_image" where
  "draw_op_on im d = im\<lparr>drawn := drawn im @ [d]\<rparr>"

definition draw_graph_borders :: "timelapse \<Rightarrow> pil_image \<Rightarrow> pil_image" where
  "draw_graph_borders self im =
     draw_op_on im
       (Rectangle (real_of_int (graph_width_margin self))
                  (real_of_int (graph_height_margin self))
                  (real_of_int (graph_width_margin self + graph_width self))
                  (real_of_int (graph_height_margin self + graph_height self)))"

text \<open>The loop of \<^verbatim>\<open>draw_grid\<close> that draws a tick at every multiple of ten degrees.\<close>

function draw_ticks :: "timelapse \<Rightarrow> int \<Rightarrow> int \<Rightarrow> pil_image \<Rightarrow> py_error + pil_image" where
  "draw_ticks self current_deg mx im =
     (if current_deg \<le> mx then
        (if current_deg mod 10 = 0 then
           (case get_temp_y_point self current_deg of
              Inl e \<Rightarrow> Inl e
            | Inr y_axis_point \<Rightarrow>
                draw_ticks self (current_deg + 1) mx
                  (draw_op_on im
                     (Line (real_of_int (graph_width_margin self + padding self)
                              - real_of_int (ticker_width self) / 2)
                           y_axis_point
                           (real_of_int (graph_width_margin self + padding self)
                              + real_of_int (ticker_width self) / 2)
                           y_axis_point 2)))
         else draw_ticks self (current_deg + 1) mx im)
      else Inr im)"
  by pat_completeness auto
termination
  by (relation "measure (\<lambda>(self, current_deg, mx, im). nat (mx + 1 - current_deg))") auto

declare draw_ticks.simps [simp del]

definition draw_grid :: "timelapse \<Rightarrow> environment \<Rightarrow> pil_image \<Rightarrow> py_error + pil_image" where
  "draw_grid self env im =
     (let x0 = real_of_int (graph_width_margin self + padding self);
          y0 = real_of_int (graph_height_margin self + graph_height self - padding self);
          x1 = real_of_int (graph_width_margin self + graph_width self - padding self);
          im1 = draw_op_on im
                  (Line x0 y0 x0 (real_of_int (graph_height_margin self + padding self)) 2);
          im2 = draw_op_on im1 (Line x0 y0 x1 y0 2)
      in case deg_min self of
           None \<Rightarrow> Inl TypeError
         | Some mn \<Rightarrow>
             (case deg_max self of
                None \<Rightarrow> Inl TypeError
              | Some mx \<Rightarrow>
                  (case draw_ticks self mn mx im2 of
                     Inl e \<Rightarrow> Inl e
                   | Inr im3 \<Rightarrow>
                       (case (if mn \<le> 32 \<and> 32 \<le> mx then
                                (case get_temp_y_point self 32 of
                                   Inl e \<Rightarrow> Inl e
                                 | Inr freezing_line \<Rightarrow>
                                     Inr (draw_op_on im3
                                            (Line x0 freezing_line x1 freezing_line 1)))
                              else Inr im3) of
                          Inl e \<Rightarrow> Inl e
                        | Inr im4 \<Rightarrow>
                            (case truetype_error env (graph_label_font self) of
                               Some e \<Rightarrow> Inl e
                             | None \<Rightarrow>
                                 (let im5 = draw_op_on im4
                                        (Text (real_of_int (graph_width_margin self + 20))
                                              (real_of_int (graph_height_margin self
                                                            + graph_height self)
                                                 - real_of_int (padding self) / 2 - 20)
                                              (str_int mn @ [CHR 0xB0]))
                                  in Inr (draw_op_on im5
                                        (Text (real_of_int (graph_width_margin self + 20))
                                              (real_of_int (graph_height_margin self)
                                                 + real_of_int (padding self) / 2 - 20)
                                              (str_int mx @ [CHR 0xB0])))))))))"

text \<open>The loop of \<^verbatim>\<open>add_temps\<close>; \<open>idx\<close> is the position \<^verbatim>\<open>enumerate\<close> gives, from zero.\<close>

fun add_temps_loop ::
  "timelapse \<Rightarrow> nat \<Rightarrow> (real \<times> real) option \<Rightarrow> int list \<Rightarrow> pil_image \<Rightarrow> py_error + pil_image"
where
  "add_temps_loop self idx last_point [] im = Inr im"
| "add_temps_loop self idx last_point (point # rest) im =
     (case get_temp_y_point self point of
        Inl e \<Rightarrow> Inl e
      | Inr y \<Rightarrow>
          (case get_x_point self idx of
             Inl e \<Rightarrow> Inl e
           | Inr x \<Rightarrow>
               (let im1 = (case plot_point_size self of
                             None \<Rightarrow> im
                           | Some sz \<Rightarrow>
                               if sz = 0 then im
                               else draw_op_on im
                                      (Ellipse (x - real_of_int sz / 2) (y - real_of_int sz / 2)
                                               (x + real_of_int sz / 2) (y + real_of_int sz / 2)));
                    im2 = (case last_point of
                             None \<Rightarrow> im1
                           | Some (lx, ly) \<Rightarrow> draw_op_on im1 (Line lx ly x y 2))
                in add_temps_loop self (Suc idx) (Some (x, y)) rest im2)))"

definition add_temps :: "timelapse \<Rightarrow> image_record \<Rightarrow> int list \<Rightarrow> py_error + pil_image" where
  "add_temps self img temperature_points =
     (case image_val img of
        None \<Rightarrow> Inl KeyError
      | Some im \<Rightarrow> add_temps_loop self 0 None temperature_points im)"

definition draw_graph :: "timelapse \<Rightarrow> environment \<Rightarrow> image_record \<Rightarrow> py_error + image_record" where
  "draw_graph self env img =
     (case image_val img of
        None \<Rightarrow> Inl KeyError
      | Some im \<Rightarrow>
          (case draw_grid self env (draw_graph_borders self im) of
             Inl e \<Rightarrow> Inl e
           | Inr im2 \<Rightarrow>
               (let img2 = img\<lparr>image_val := Some im2\<rparr>
                in case temps img2 of
                     None \<Rightarrow> Inl KeyError
                   | Some ts \<Rightarrow>
                       (case add_temps self img2 ts of
                          Inl e \<Rightarrow> Inl e
                        | Inr im3 \<Rightarrow> Inr (img2\<lparr>image_val := Some im3\<rparr>)))))"

section \<open>Loading the series\<close>

text \<open>The loop of \<^verbatim>\<open>load_images\<close> over the directory listing. With an ordering function
  set and no \<^verbatim>\<open>images_directory\<close>, \<^verbatim>\<open>os.path.join\<close> raises \<^verbatim>\<open>TypeError\<close>.\<close>

fun load_loop :: "timelapse \<Rightarrow> string list \<Rightarrow> py_error + image_record list" where
  "load_loop self [] = Inr []"
| "load_loop self (filename # rest) =
     (if endswith_any (lower filename) (valid_file_extensions self) then
        (case (case order_fn self of
                 None \<Rightarrow> Inr (NameKey filename)
               | Some f \<Rightarrow>
                   (case images_directory self of
                      None \<Rightarrow> Inl TypeError
                    | Some d \<Rightarrow> Inr (NumKey (f (path_join d filename))))) of
           Inl e \<Rightarrow> Inl e
         | Inr order_value \<Rightarrow>
             (case load_loop self rest of
                Inl e \<Rightarrow> Inl e
              | Inr file_list \<Rightarrow>
                  Inr (\<lparr> image_val = None, file_name = filename, temp = None,
                         order = order_value, index = None, temps = None \<rparr> # file_list)))
      else load_loop self rest)"

text \<open>The comparison \<^verbatim>\<open>sorted\<close> applies to the keys. All keys of one listing are names, or
  all are numbers; the mixed case (a \<^verbatim>\<open>TypeError\<close> in Python) does not arise.\<close>

fun key_less :: "order_key \<Rightarrow> order_key \<Rightarrow> bool" where
  "key_less (NameKey a) (NameKey b) = str_less a b"
| "key_less (NumKey a) (NumKey b) = (a < b)"
| "key_less _ _ = False"

text \<open>\<^verbatim>\<open>sorted(file_list, key=lambda item: item['order'])\<close>: a stable sort, as an
  insertion sort that puts an item after the items whose key is not larger.\<close>

fun insort_order :: "image_record \<Rightarrow> image_record list \<Rightarrow> image_record list" where
  "insort_order x [] = [x]"
| "insort_order x (y # ys) =
     (if key_less (order x) (order y) then x # y # ys else y # insort_order x ys)"

definition sorted_by_order :: "image_record list \<Rightarrow> image_record list" where
  "sorted_by_order file_list = fold insort_order file_list []"

text \<open>The loop that sets \<^verbatim>\<open>img['index']\<close> from \<^verbatim>\<open>enumerate(self.image_series, start=1)\<close>.\<close>

definition set_indexes :: "image_record list \<Rightarrow> image_record list" where
  "set_indexes series = map (\<lambda>(i, img). img\<lparr>index := Some i\<rparr>) (enumerate 1 series)"

text \<open>\<^verbatim>\<open>os.listdir(None)\<close> lists the current directory.\<close>

definition load_images :: "timelapse \<Rightarrow> environment \<Rightarrow> py_error + timelapse" where
  "load_images self env =
     (case listdir env (case images_directory self of None \<Rightarrow> ''.'' | Some d \<Rightarrow> d) of
        Inl e \<Rightarrow> Inl e
      | Inr names \<Rightarrow>
          (case load_loop self names of
             Inl e \<Rightarrow> Inl e
           | Inr file_list \<Rightarrow>
               Inr (self\<lparr>image_series := set_indexes (sorted_by_order file_list)\<rparr>)))"

section \<open>Extracting the temperatures\<close>

text \<open>\<^verbatim>\<open>process_image\<close>: the text the OCR engine returns is bound and not used; \<^verbatim>\<open>int\<close> is
  applied to the attribute \<^verbatim>\<open>temperature_text_parser\<close> itself, and only \<^verbatim>\<open>IndexError\<close> and
  \<^verbatim>\<open>ValueError\<close> are caught.\<close>

definition process_image :: "timelapse \<Rightarrow> environment \<Rightarrow> image_record \<Rightarrow> py_error + image_record" where
  "process_image self env file_meta =
     (case images_directory self of
        None \<Rightarrow> Inl TypeError
      | Some d \<Rightarrow>
          (case image_open_error env (path_join d (file_name file_meta)) of
             Some e \<Rightarrow> Inl e
           | None \<Rightarrow>
               (let im = \<lparr> source = path_join d (file_name file_meta), drawn = [] \<rparr>
                in case image_to_string env im (ocr_binding_box self) of
                     Inl e \<Rightarrow> Inl e
                   | Inr text \<Rightarrow>
                       (case py_int (temperature_text_parser self) of
                          Inr t \<Rightarrow>
                            (case index file_meta of
                               None \<Rightarrow> Inl KeyError
                             | Some i \<Rightarrow>
                                 Inr \<lparr> image_val = Some im, file_name = file_name file_meta,
                                       temp = Some t, order = order file_meta,
                                       index = Some i, temps = None \<rparr>)
                        | Inl e \<Rightarrow>
                            (if e = IndexError \<or> e = ValueError then
                               (case user_input env im of
                                  Inl e' \<Rightarrow> Inl e'
                                | Inr line \<Rightarrow>
                                    (case int_of_str line of
                                       Inl e' \<Rightarrow> Inl e'
                                     | Inr t \<Rightarrow>
                                         (case index file_meta of
                                            None \<Rightarrow> Inl KeyError
                                          | Some i \<Rightarrow>
                                              Inr \<lparr> image_val = Some im,
                                                    file_name = file_name file_meta,
                                                    temp = Some t, order = order file_meta,
                                                    index = Some i, temps = None \<rparr>)))
                             else Inl e)))))"

text \<open>\<^verbatim>\<open>Pool.map\<close>. The tasks finish in some order; \<open>completion\<close> lists task positions in
  the order they finish, and any list is read as such an order (positions out of range
  and repetitions are dropped, tasks not listed finish last). Each result is stored in
  the slot of its task. If a task raised, the exception of the first one to finish is
  raised again in the caller; otherwise the slots are returned in task order. The split
  of the tasks into chunks is not modelled.\<close>

definition completion_order :: "nat \<Rightarrow> nat list \<Rightarrow> nat list" where
  "completion_order n completion =
     remdups (filter (\<lambda>k. k < n) completion) @ filter (\<lambda>k. k \<notin> set completion) [0..<n]"

definition pool_map :: "('a \<Rightarrow> py_error + 'b) \<Rightarrow> 'a list \<Rightarrow> nat list \<Rightarrow> py_error + 'b list" where
  "pool_map f xs completion =
     (let finished = map (\<lambda>k. (k, f (xs ! k))) (completion_order (length xs) completion);
          slots = fold (\<lambda>(k, r) acc. acc[k := Some r]) finished (replicate (length xs) None)
      in case List.map_filter (\<lambda>(k, r). case r of Inl e \<Rightarrow> Some e | Inr y \<Rightarrow> None) finished of
           e # es \<Rightarrow> Inl e
         | [] \<Rightarrow>
             Inr (List.map_filter
                    (\<lambda>slot. case slot of Some (Inr y) \<Rightarrow> Some y | _ \<Rightarrow> None) slots))"

text \<open>The loop of \<^verbatim>\<open>process_images\<close> that follows the pool: it carries \<^verbatim>\<open>deg_max\<close>,
  \<^verbatim>\<open>deg_min\<close> and \<^verbatim>\<open>current_temps\<close>, and gives each dictionary a copy of the list so far.\<close>

fun aggregate_loop ::
  "int option \<Rightarrow> int option \<Rightarrow> int list \<Rightarrow> image_record list
     \<Rightarrow> py_error + (int option \<times> int option \<times> image_record list)"
where
  "aggregate_loop mx mn current_temps [] = Inr (mx, mn, [])"
| "aggregate_loop mx mn current_temps (img # rest) =
     (case temp img of
        None \<Rightarrow> Inl KeyError
      | Some t \<Rightarrow>
          (let mx' = (case mx of None \<Rightarrow> Some t | Some m \<Rightarrow> if t > m then Some t else Some m);
               mn' = (case mn of None \<Rightarrow> Some t | Some m \<Rightarrow> if t < m then Some t else Some m);
               current_temps' = current_temps @ [t]
           in case aggregate_loop mx' mn' current_temps' rest of
                Inl e \<Rightarrow> Inl e
              | Inr (mx'', mn'', rest') \<Rightarrow>
                  Inr (mx'', mn'', img\<lparr>temps := Some current_temps'\<rparr> # rest')))"

text \<open>The object after the pool and the loop, before \<^verbatim>\<open>compute_pixels_per_temp\<close> is called.\<close>

definition aggregate :: "timelapse \<Rightarrow> image_record list \<Rightarrow> py_error + timelapse" where
  "aggregate self series =
     (case aggregate_loop (deg_max self) (deg_min self) [] series of
        Inl e \<Rightarrow> Inl e
      | Inr (mx, mn, series') \<Rightarrow>
          Inr (self\<lparr>image_series := series', deg_max := mx, deg_min := mn\<rparr>))"

text \<open>A task of the pool runs in a worker process, and \<^verbatim>\<open>multiprocessing\<close> closes the standard
  input of its worker processes: \<^verbatim>\<open>input\<close> raises \<^verbatim>\<open>EOFError\<close> there, whatever the user would
  type.\<close>

definition pool_worker :: "environment \<Rightarrow> environment" where
  "pool_worker env = env\<lparr>user_input := (\<lambda>im. Inl EOFError)\<rparr>"

definition process_images :: "timelapse \<Rightarrow> environment \<Rightarrow> nat list \<Rightarrow> py_error + timelapse" where
  "process_images self env completion =
     (case pool_map (process_image self (pool_worker env)) (image_series self) completion of
        Inl e \<Rightarrow> Inl e
      | Inr series \<Rightarrow>
          (case aggregate self series of
             Inl e \<Rightarrow> Inl e
           | Inr self' \<Rightarrow>
               (case compute_pixels_per_temp self' of
                  Inl e \<Rightarrow> Inl e
                | Inr ppd \<Rightarrow>
                    Inr (self'\<lparr>pixels_per_degree := ppd,
                               total_frames := length (image_series self')\<rparr>))))"

section \<open>Rendering the frames and the video\<close>

definition new_filename :: "nat \<Rightarrow> nat \<Rightarrow> py_error + string" where
  "new_filename idx max_digits =
     (case format_nat idx (CHR ''0'' # str_nat max_digits) of
        Inl e \<Rightarrow> Inl e
      | Inr s \<Rightarrow> Inr (''TIMELAPSE'' @ s @ ''.JPG''))"

text \<open>The two loops of \<^verbatim>\<open>render_images\<close>. The result is the list of files written, in
  order, each with its path and content, and the exception that ended the loop, if any.\<close>

fun render_graph_loop ::
  "timelapse \<Rightarrow> environment \<Rightarrow> nat \<Rightarrow> image_record list
     \<Rightarrow> (string \<times> file_content) list \<times> py_error option"
where
  "render_graph_loop self env max_digits [] = ([], None)"
| "render_graph_loop self env max_digits (img # rest) =
     (case draw_graph self env img of
        Inl e \<Rightarrow> ([], Some e)
      | Inr image_obj \<Rightarrow>
          (case index image_obj of
             None \<Rightarrow> ([], Some KeyError)
           | Some i \<Rightarrow>
               (case new_filename i max_digits of
                  Inl e \<Rightarrow> ([], Some e)
                | Inr name \<Rightarrow>
                    (case image_val image_obj of
                       None \<Rightarrow> ([], Some KeyError)
                     | Some im \<Rightarrow>
                         (case save_directory self of
                            None \<Rightarrow> ([], Some TypeError)
                          | Some d \<Rightarrow>
                              (case write_error env (path_join d name) of
                                 Some e \<Rightarrow> ([], Some e)
                               | None \<Rightarrow>
                                   (case render_graph_loop self env max_digits rest of
                                      (written, err) \<Rightarrow>
                                        ((path_join d name, Saved im) # written, err))))))))"

fun render_copy_loop ::
  "timelapse \<Rightarrow> environment \<Rightarrow> nat \<Rightarrow> nat \<Rightarrow> image_record list
     \<Rightarrow> (string \<times> file_content) list \<times> py_error option"
where
  "render_copy_loop self env max_digits idx [] = ([], None)"
| "render_copy_loop self env max_digits idx (image_obj # rest) =
     (case new_filename idx max_digits of
        Inl e \<Rightarrow> ([], Some e)
      | Inr name \<Rightarrow>
          (case images_directory self of
             None \<Rightarrow> ([], Some TypeError)
           | Some src_dir \<Rightarrow>
               (case save_directory self of
                  None \<Rightarrow> ([], Some TypeError)
                | Some d \<Rightarrow>
                    (case read_error env (path_join src_dir (file_name image_obj)) of
                       Some e \<Rightarrow> ([], Some e)
                     | None \<Rightarrow>
                         (case write_error env (path_join d name) of
                            Some e \<Rightarrow> ([], Some e)
                          | None \<Rightarrow>
                              (case render_copy_loop self env max_digits (Suc idx) rest of
                                 (written, err) \<Rightarrow>
                                   ((path_join d name,
                                     CopyOf (path_join src_dir (file_name image_obj)))
                                    # written, err)))))))"

definition render_images ::
  "timelapse \<Rightarrow> environment \<Rightarrow> bool \<Rightarrow> (string \<times> file_content) list \<times> py_error option"
where
  "render_images self env add_graph =
     (let max_digits = length (str_nat (length (image_series self)))
      in if add_graph then render_graph_loop self env max_digits (image_series self)
         else render_copy_loop self env max_digits 1 (image_series self))"

text \<open>\<^verbatim>\<open>render_video\<close>: the result is the list of shell commands run, each with the exit
  status \<^verbatim>\<open>os.system\<close> returned. The source does not read that status.\<close>

definition ffmpeg_command :: "timelapse \<Rightarrow> string \<Rightarrow> string \<Rightarrow> string" where
  "ffmpeg_command self d save_as =
     ''cd '' @ d @ '' && ffmpeg -f image2 -framerate '' @ str_int (framerate self)
     @ '' -pattern_type sequence -start_number 1 -r '' @ str_int (images_per_second self)
     @ '' -i TIMELAPSE%0'' @ str_nat (length (str_nat (length (image_series self))))
     @ ''d.JPG '' @ save_as"

definition render_video ::
  "timelapse \<Rightarrow> environment \<Rightarrow> string \<Rightarrow> py_error + (string \<times> int) list"
where
  "render_video self env save_as =
     (case save_directory self of
        None \<Rightarrow> Inl TypeError
      | Some d \<Rightarrow>
          (let command = ffmpeg_command self d save_as;
               status = os_system env command
           in Inr [(command, status)]))"


section \<open>Example inputs\<close>

text \<open>A dictionary as \<^verbatim>\<open>load_images\<close> leaves it, for a file ordered by name.\<close>

definition loaded_record :: "string \<Rightarrow> nat \<Rightarrow> image_record" where
  "loaded_record name i =
     \<lparr> image_val = None, file_name = name, temp = None,
       order = NameKey name, index = Some i, temps = None \<rparr>"

text \<open>A series of \<open>n\<close> loaded files.\<close>

definition loaded_series :: "nat \<Rightarrow> image_record list" where
  "loaded_series n = map (\<lambda>i. loaded_record (''IMG'' @ str_nat i @ ''.jpg'') i) [1..<Suc n]"

text \<open>An environment: a directory \<^verbatim>\<open>photos\<close> with three images and a text file, an OCR
  engine that reads the same overlay on every image, a user who types a temperature for
  each image shown, and an encoder that exits with status 1.\<close>

definition ocr_reading :: string where
  "ocr_reading = ''2020-01-05 10:00 25'' @ [CHR 0xB0] @ ''C 77'' @ [CHR 0xB0] @ ''F''"

definition example_env :: environment where
  "example_env =
     \<lparr> listdir = (\<lambda>d. if d = ''photos'' then Inr [''c.png'', ''notes.txt'', ''a.jpg'', ''B.JPG'']
                       else Inl OSError),
       image_open_error = (\<lambda>p. None),
       image_to_string = (\<lambda>im box. Inr ocr_reading),
       user_input = (\<lambda>im. if source im = ''photos/B.JPG'' then Inr ''50''
                          else if source im = ''photos/a.jpg'' then Inr ''61''
                          else Inr ''55''),
       truetype_error = (\<lambda>f. None),
       write_error = (\<lambda>p. None),
       read_error = (\<lambda>p. None),
       os_system = (\<lambda>c. 1) \<rparr>"

definition example_self :: timelapse where
  "example_self = timelapse_init\<lparr>images_directory := Some ''photos'', save_directory := Some ''save''\<rparr>"

text \<open>The overlay of an image that shows \<open>c\<close> degrees Celsius and \<open>f\<close> degrees Fahrenheit,
  and the environment above with an OCR engine that reads a different overlay on each
  image: 50, 61 and 55 degrees Fahrenheit.\<close>

definition overlay :: "string \<Rightarrow> string \<Rightarrow> string" where
  "overlay c f = ''2020-01-05 10:00 '' @ c @ [CHR 0xB0] @ ''C '' @ f @ [CHR 0xB0] @ ''F''"

definition example_env_readings :: environment where
  "example_env_readings =
     example_env\<lparr>image_to_string :=
       (\<lambda>im box. if source im = ''photos/B.JPG'' then Inr (overlay ''10'' ''50'')
                  else if source im = ''photos/a.jpg'' then Inr (overlay ''16'' ''61'')
                  else Inr (overlay ''13'' ''55''))\<rparr>"

text \<open>The default configuration after \<^verbatim>\<open>load_images\<close> on the directory \<^verbatim>\<open>photos\<close>.\<close>

definition example_default_loaded :: timelapse where
  "example_default_loaded =
     example_self\<lparr>image_series :=
       [loaded_record ''B.JPG'' 1, loaded_record ''a.jpg'' 2, loaded_record ''c.png'' 3]\<rparr>"

text \<open>A dictionary that carries an image, a temperature and a temperature history, and an
  object with \<open>n\<close> such dictionaries, indexed from 1, whose temperatures are 1 to \<open>n\<close>.\<close>

definition processed_record :: "string \<Rightarrow> nat \<Rightarrow> int \<Rightarrow> int list \<Rightarrow> image_record" where
  "processed_record name i t ts =
     \<lparr> image_val = Some \<lparr>source = ''photos/'' @ name, drawn = []\<rparr>, file_name = name,
       temp = Some t, order = NameKey name, index = Some i, temps = Some ts \<rparr>"

definition example_frames :: "nat \<Rightarrow> timelapse" where
  "example_frames n =
     example_self\<lparr>image_series :=
         map (\<lambda>i. processed_record (''IMG'' @ str_nat i @ ''.jpg'') i (int i) (map int [1..<Suc i]))
             [1..<Suc n],
       deg_max := Some (int n), deg_min := Some 1,
       pixels_per_degree := 530 / (real n - 1), total_frames := n\<rparr>"

section \<open>Graph geometry: the scale and the x positions\<close>

text \<open>
  Claim C7. With \<^verbatim>\<open>deg_max\<close> and \<^verbatim>\<open>deg_min\<close> set and different, \<^verbatim>\<open>compute_pixels_per_temp\<close>
  returns \<open>(graph_height - 2 * padding) / (deg_max - deg_min)\<close>. For \<open>deg_min = 20\<close>,
  \<open>deg_max = 40\<close>, \<open>graph_height = 650\<close> and \<open>padding = 60\<close> that is \<open>26.5\<close>, as the instance
  that follows shows.
\<close>

theorem compute_pixels_per_temp_formula:
  assumes "deg_max self = Some mx" and "deg_min self = Some mn" and "mx \<noteq> mn"
  shows "compute_pixels_per_temp self
           = Inr (real_of_int (graph_height self - 2 * padding self) / real_of_int (mx - mn))"
  using assms by (simp add: compute_pixels_per_temp_def mult.commute)

theorem compute_pixels_per_temp_formula_witness:
  "deg_max (timelapse_init\<lparr>deg_min := Some 20, deg_max := Some 40\<rparr>) = Some 40
   \<and> deg_min (timelapse_init\<lparr>deg_min := Some 20, deg_max := Some 40\<rparr>) = Some 20
   \<and> (40::int) \<noteq> 20
   \<and> graph_height timelapse_init = 650 \<and> padding timelapse_init = 60
   \<and> compute_pixels_per_temp (timelapse_init\<lparr>deg_min := Some 20, deg_max := Some 40\<rparr>)
       = Inr 26.5"
  using compute_pixels_per_temp_formula
          [of "timelapse_init\<lparr>deg_min := Some 20, deg_max := Some 40\<rparr>" 40 20]
  by (simp add: timelapse_init_def)

text \<open>
  Claim C6. With \<open>N\<close> the length of the whole \<^verbatim>\<open>image_series\<close> (and \<open>N \<noteq> 1\<close>, where the
  source divides by zero), \<^verbatim>\<open>get_x_point\<close> at the zero-based position \<open>i\<close> returns
  \<open>graph_width_margin + padding + i * (graph_width - 2 * padding) / (N - 1)\<close>. The history
  of the frame being drawn is not an argument of the function, so the spacing is that of
  the whole series on every frame. For five frames and the default geometry the instance
  that follows gives \<open>x(0) = 250\<close> and \<open>x(4) = 4216\<close>.
\<close>

theorem get_x_point_formula:
  assumes "length (image_series self) = N" and "N \<noteq> 1"
  shows "get_x_point self i
           = Inr (real_of_int (graph_width_margin self) + real_of_int (padding self)
                  + real i * real_of_int (graph_width self - 2 * padding self) / (real N - 1))"
  using assms by (simp add: get_x_point_def Let_def mult.commute)

theorem get_x_point_formula_witness:
  "length (image_series (timelapse_init\<lparr>image_series := loaded_series 5\<rparr>)) = 5
   \<and> (5::nat) \<noteq> 1
   \<and> graph_width timelapse_init = 4086 \<and> padding timelapse_init = 60
   \<and> graph_width_margin timelapse_init = 190
   \<and> get_x_point (timelapse_init\<lparr>image_series := loaded_series 5\<rparr>) 0 = Inr 250
   \<and> get_x_point (timelapse_init\<lparr>image_series := loaded_series 5\<rparr>) 4 = Inr 4216"
  using get_x_point_formula [of "timelapse_init\<lparr>image_series := loaded_series 5\<rparr>" 5 0]
        get_x_point_formula [of "timelapse_init\<lparr>image_series := loaded_series 5\<rparr>" 5 4]
  by (simp add: timelapse_init_def loaded_series_def)


section \<open>Loading\<close>

lemma load_loop_no_match:
  "\<forall>n \<in> set names. \<not> endswith_any (lower n) (valid_file_extensions self)
     \<Longrightarrow> load_loop self names = Inr []"
  by (induction names) auto

text \<open>
  Claim C5 (as amended). \<^verbatim>\<open>load_images\<close> raises only what \<^verbatim>\<open>os.listdir\<close> raises, when the
  directory cannot be listed. When the listing is empty or holds no entry with an allowed
  extension, \<^verbatim>\<open>load_images\<close> returns normally and leaves an empty \<^verbatim>\<open>image_series\<close>: there is
  no "no matching files" condition.
\<close>

theorem load_images_without_matching_files:
  "(listdir env (case images_directory self of None \<Rightarrow> ''.'' | Some d \<Rightarrow> d) = Inl e
      \<longrightarrow> load_images self env = Inl e)
   \<and> (listdir env (case images_directory self of None \<Rightarrow> ''.'' | Some d \<Rightarrow> d) = Inr names
       \<and> (\<forall>n \<in> set names. \<not> endswith_any (lower n) (valid_file_extensions self))
      \<longrightarrow> load_images self env = Inr (self\<lparr>image_series := []\<rparr>))"
  by (simp add: load_images_def load_loop_no_match sorted_by_order_def set_indexes_def enumerate_eq_zip)

theorem load_images_without_matching_files_witness:
  "load_images (example_self\<lparr>images_directory := Some ''missing''\<rparr>) example_env = Inl OSError
   \<and> \<not> endswith_any (lower ''notes.txt'') (valid_file_extensions example_self)
   \<and> \<not> endswith_any (lower ''clip.mp4'') (valid_file_extensions example_self)
   \<and> load_images example_self (example_env\<lparr>listdir := (\<lambda>d. Inr [''notes.txt'', ''clip.mp4''])\<rparr>)
       = Inr (example_self\<lparr>image_series := []\<rparr>)"
proof -
  have a: "listdir example_env (case images_directory (example_self\<lparr>images_directory := Some ''missing''\<rparr>)
              of None \<Rightarrow> ''.'' | Some d \<Rightarrow> d) = Inl OSError"
    by (simp add: example_env_def)
  have b: "\<forall>n \<in> set [''notes.txt'', ''clip.mp4'']. \<not> endswith_any (lower n) (valid_file_extensions example_self)"
    by code_simp
  have c: "listdir (example_env\<lparr>listdir := (\<lambda>d. Inr [''notes.txt'', ''clip.mp4''])\<rparr>)
             (case images_directory example_self of None \<Rightarrow> ''.'' | Some d \<Rightarrow> d)
           = Inr [''notes.txt'', ''clip.mp4'']"
    by simp
  show ?thesis
    using a b c
      load_images_without_matching_files
          [of example_env "example_self\<lparr>images_directory := Some ''missing''\<rparr>" OSError "[]"]
      load_images_without_matching_files
          [of "example_env\<lparr>listdir := (\<lambda>d. Inr [''notes.txt'', ''clip.mp4''])\<rparr>" example_self OSError
              "[''notes.txt'', ''clip.mp4'']"]
    by simp
qed

text \<open>The claim as stated fails: on an empty directory \<^verbatim>\<open>load_images\<close> does not fail, it
  returns with an empty series.\<close>

theorem load_images_empty_directory_succeeds:
  "(case load_images example_self (example_env\<lparr>listdir := (\<lambda>d. Inr [])\<rparr>) of
      Inl e \<Rightarrow> False | Inr self' \<Rightarrow> image_series self' = [])"
  by (simp add: load_images_def sorted_by_order_def set_indexes_def enumerate_eq_zip)

section \<open>Extraction of one image\<close>

text \<open>
  Claim C2. The claim says \<^verbatim>\<open>process_image\<close> applies the parser to the OCR text and converts
  the result to an integer. The source applies \<^verbatim>\<open>int\<close> to the parser object. With the default
  configuration and an overlay the default parser reads as \<open>''77''\<close>, \<^verbatim>\<open>process_image\<close>
  raises \<^verbatim>\<open>TypeError\<close> instead of returning the temperature \<open>77\<close>.
\<close>

theorem process_image_does_not_call_parser:
  "temperature_text_parser example_self = PyFunc parse_temperature_text
   \<and> image_to_string example_env \<lparr>source = ''photos/a.jpg'', drawn = []\<rparr>
         (ocr_binding_box example_self) = Inr ocr_reading
   \<and> parse_temperature_text ocr_reading = Inr ''77''
   \<and> int_of_str ''77'' = Inr 77
   \<and> process_image example_self example_env (loaded_record ''a.jpg'' 2) = Inl TypeError"
proof -
  have "parse_temperature_text ocr_reading = Inr ''77''" by code_simp
  moreover have "int_of_str ''77'' = Inr 77" by code_simp
  moreover have "path_join ''photos'' ''a.jpg'' = ''photos/a.jpg''" by code_simp
  ultimately show ?thesis
    by (simp add: process_image_def example_self_def example_env_def timelapse_init_def
                  loaded_record_def)
qed

text \<open>
  Claim C4. The claim says a failure to parse the OCR text leads to the interactive
  fallback. With the default configuration and an OCR text on which the default parser
  raises \<^verbatim>\<open>IndexError\<close>, \<^verbatim>\<open>process_image\<close> raises \<^verbatim>\<open>TypeError\<close> and the user, who would have
  typed \<open>''61''\<close>, is not asked.
\<close>

theorem process_image_parse_failure_without_fallback:
  "image_to_string (example_env\<lparr>image_to_string := (\<lambda>im box. Inr ''no reading'')\<rparr>)
       \<lparr>source = ''photos/a.jpg'', drawn = []\<rparr> (ocr_binding_box example_self)
     = Inr ''no reading''
   \<and> parse_temperature_text ''no reading'' = Inl IndexError
   \<and> user_input (example_env\<lparr>image_to_string := (\<lambda>im box. Inr ''no reading'')\<rparr>)
         \<lparr>source = ''photos/a.jpg'', drawn = []\<rparr> = Inr ''61''
   \<and> process_image example_self
         (example_env\<lparr>image_to_string := (\<lambda>im box. Inr ''no reading'')\<rparr>)
         (loaded_record ''a.jpg'' 2) = Inl TypeError"
proof -
  have "parse_temperature_text ''no reading'' = Inl IndexError" by code_simp
  moreover have "path_join ''photos'' ''a.jpg'' = ''photos/a.jpg''" by code_simp
  ultimately show ?thesis
    by (simp add: process_image_def example_self_def example_env_def timelapse_init_def
                  loaded_record_def)
qed

text \<open>
  Claim C10. Whenever \<^verbatim>\<open>process_image\<close> returns a dictionary, its \<^verbatim>\<open>'file_name'\<close>, \<^verbatim>\<open>'order'\<close>
  and \<^verbatim>\<open>'index'\<close> are those of its input, \<^verbatim>\<open>'image'\<close> and \<^verbatim>\<open>'temp'\<close> are set and there is no
  other key. Both return sites are reached: the first when \<^verbatim>\<open>int\<close> of the parser attribute
  succeeds, the second when it raises \<^verbatim>\<open>ValueError\<close> and the line the user types is an
  integer.
\<close>

theorem process_image_keeps_identity:
  "(process_image self env file_meta = Inr r \<longrightarrow>
      file_name r = file_name file_meta \<and> order r = order file_meta
      \<and> index r = index file_meta \<and> image_val r \<noteq> None \<and> temp r \<noteq> None \<and> temps r = None)
   \<and> (images_directory self = Some d
       \<and> image_open_error env (path_join d (file_name file_meta)) = None
       \<and> image_to_string env \<lparr>source = path_join d (file_name file_meta), drawn = []\<rparr>
             (ocr_binding_box self) = Inr text
       \<and> index file_meta = Some i
       \<and> py_int (temperature_text_parser self) = Inr t \<longrightarrow>
      process_image self env file_meta
        = Inr \<lparr> image_val = Some \<lparr>source = path_join d (file_name file_meta), drawn = []\<rparr>,
                file_name = file_name file_meta, temp = Some t, order = order file_meta,
                index = Some i, temps = None \<rparr>)
   \<and> (images_directory self = Some d
       \<and> image_open_error env (path_join d (file_name file_meta)) = None
       \<and> image_to_string env \<lparr>source = path_join d (file_name file_meta), drawn = []\<rparr>
             (ocr_binding_box self) = Inr text
       \<and> index file_meta = Some i
       \<and> py_int (temperature_text_parser self) = Inl ValueError
       \<and> user_input env \<lparr>source = path_join d (file_name file_meta), drawn = []\<rparr> = Inr line
       \<and> int_of_str line = Inr t' \<longrightarrow>
      process_image self env file_meta
        = Inr \<lparr> image_val = Some \<lparr>source = path_join d (file_name file_meta), drawn = []\<rparr>,
                file_name = file_name file_meta, temp = Some t', order = order file_meta,
                index = Some i, temps = None \<rparr>)"
  by (auto simp: process_image_def Let_def split: option.splits sum.splits if_splits)

theorem process_image_keeps_identity_witness:
  "process_image (example_self\<lparr>temperature_text_parser := PyStr ''72''\<rparr>) example_env
       (loaded_record ''a.jpg'' 2)
     = Inr \<lparr> image_val = Some \<lparr>source = ''photos/a.jpg'', drawn = []\<rparr>,
             file_name = ''a.jpg'', temp = Some 72, order = NameKey ''a.jpg'',
             index = Some 2, temps = None \<rparr>
   \<and> py_int (temperature_text_parser (example_self\<lparr>temperature_text_parser := PyStr ''unknown''\<rparr>))
       = Inl ValueError
   \<and> process_image (example_self\<lparr>temperature_text_parser := PyStr ''unknown''\<rparr>) example_env
       (loaded_record ''a.jpg'' 2)
     = Inr \<lparr> image_val = Some \<lparr>source = ''photos/a.jpg'', drawn = []\<rparr>,
             file_name = ''a.jpg'', temp = Some 61, order = NameKey ''a.jpg'',
             index = Some 2, temps = None \<rparr>
   \<and> file_name (loaded_record ''a.jpg'' 2) = ''a.jpg''
   \<and> order (loaded_record ''a.jpg'' 2) = NameKey ''a.jpg''
   \<and> index (loaded_record ''a.jpg'' 2) = Some 2"
proof -
  have p: "path_join ''photos'' ''a.jpg'' = ''photos/a.jpg''" by code_simp
  have a: "py_int (PyStr ''72'') = Inr 72" by code_simp
  have b: "py_int (PyStr ''unknown'') = Inl ValueError" by code_simp
  have c: "int_of_str ''61'' = Inr 61" by code_simp
  have r: "file_name (loaded_record ''a.jpg'' 2) = ''a.jpg''"
          "order (loaded_record ''a.jpg'' 2) = NameKey ''a.jpg''"
          "index (loaded_record ''a.jpg'' 2) = Some 2"
    by (simp_all add: loaded_record_def)
  have s1: "process_image (example_self\<lparr>temperature_text_parser := PyStr ''72''\<rparr>) example_env
              (loaded_record ''a.jpg'' 2)
            = Inr \<lparr> image_val = Some \<lparr>source = ''photos/a.jpg'', drawn = []\<rparr>,
                    file_name = ''a.jpg'', temp = Some 72, order = NameKey ''a.jpg'',
                    index = Some 2, temps = None \<rparr>"
    using process_image_keeps_identity
            [of "example_self\<lparr>temperature_text_parser := PyStr ''72''\<rparr>" example_env
                "loaded_record ''a.jpg'' 2"
                "\<lparr> image_val = Some \<lparr>source = ''photos/a.jpg'', drawn = []\<rparr>,
                   file_name = ''a.jpg'', temp = Some 72, order = NameKey ''a.jpg'',
                   index = Some 2, temps = None \<rparr>" "''photos''" ocr_reading 2 72]
          p a r
    by (simp add: example_self_def example_env_def)
  have s2: "process_image (example_self\<lparr>temperature_text_parser := PyStr ''unknown''\<rparr>) example_env
              (loaded_record ''a.jpg'' 2)
            = Inr \<lparr> image_val = Some \<lparr>source = ''photos/a.jpg'', drawn = []\<rparr>,
                    file_name = ''a.jpg'', temp = Some 61, order = NameKey ''a.jpg'',
                    index = Some 2, temps = None \<rparr>"
    using process_image_keeps_identity
            [of "example_self\<lparr>temperature_text_parser := PyStr ''unknown''\<rparr>" example_env
                "loaded_record ''a.jpg'' 2" _ "''photos''" ocr_reading 2 _ "''61''" 61]
          p b c r
    by (simp add: example_self_def example_env_def)
  show ?thesis using s1 s2 b r by simp
qed

section \<open>The pool and the aggregation loop\<close>

text \<open>The result of the pool does not depend on the order in which its tasks finish, and
  the loop that follows, given dictionaries that carry temperatures, builds the histories
  and the extremes. A run reaches the loop only when every task of the pool returns; with
  a function as parser no task does.\<close>

lemma set_indexes_nth:
  "k < length series \<Longrightarrow> set_indexes series ! k = (series ! k)\<lparr>index := Some (Suc k)\<rparr>"
  by (simp add: set_indexes_def nth_enumerate_eq)

lemma length_set_indexes: "length (set_indexes series) = length series"
  by (simp add: set_indexes_def)

lemma set_completion_order: "set (completion_order n completion) = {..<n}"
  by (auto simp: completion_order_def)

lemma length_fold_slots:
  "length (fold (\<lambda>(k, r) acc. acc[k := Some r]) finished acc) = length acc"
  by (induction finished arbitrary: acc) auto

lemma nth_fold_slots:
  "j < length acc \<Longrightarrow>
   fold (\<lambda>(k, r) acc. acc[k := Some r]) (map (\<lambda>k. (k, g k)) ks) acc ! j
     = (if j \<in> set ks then Some (g j) else acc ! j)"
proof (induction ks arbitrary: acc)
  case Nil
  then show ?case by simp
next
  case (Cons k ks)
  then show ?case by (auto simp: nth_list_update)
qed

lemma slots_filled:
  "fold (\<lambda>(k, r) acc. acc[k := Some r])
        (map (\<lambda>k. (k, f (xs ! k))) (completion_order (length xs) completion))
        (replicate (length xs) None)
     = map (\<lambda>x. Some (f x)) xs"
  by (rule nth_equalityI)
     (simp_all add: length_fold_slots nth_fold_slots set_completion_order)

lemma failures_empty_iff:
  "List.map_filter (\<lambda>(k, r). case r of Inl e \<Rightarrow> Some e | Inr y \<Rightarrow> None)
       (map (\<lambda>k. (k, f (xs ! k))) ks) = []
     \<longleftrightarrow> (\<forall>k \<in> set ks. \<exists>y. f (xs ! k) = Inr y)"
  by (induction ks) (auto simp: List.map_filter_simps split: sum.splits)

lemma collect_slots:
  "map f xs = map Inr ys \<Longrightarrow>
   List.map_filter (\<lambda>slot. case slot of Some (Inr y) \<Rightarrow> Some y | _ \<Rightarrow> None)
       (map (\<lambda>x. Some (f x)) xs) = ys"
  by (induction xs arbitrary: ys) (auto simp: List.map_filter_simps)

lemma all_Inr_map:
  "(\<forall>k < length xs. \<exists>y. f (xs ! k) = Inr y) \<Longrightarrow> \<exists>ys. map f xs = map Inr ys"
proof (induction xs)
  case Nil
  then show ?case by simp
next
  case (Cons x xs)
  from Cons.prems have "\<forall>k < length xs. \<exists>y. f (xs ! k) = Inr y" by fastforce
  with Cons.IH obtain ys where ys: "map f xs = map Inr ys" by blast
  from Cons.prems obtain y where "f x = Inr y" by fastforce
  with ys have "map f (x # xs) = map Inr (y # ys)" by simp
  then show ?case by blast
qed

lemma all_Some_map:
  "(\<forall>k < length xs. \<exists>y. f (xs ! k) = Some y) \<Longrightarrow> \<exists>ys. map f xs = map Some ys"
proof (induction xs)
  case Nil
  then show ?case by simp
next
  case (Cons x xs)
  from Cons.prems have "\<forall>k < length xs. \<exists>y. f (xs ! k) = Some y" by fastforce
  with Cons.IH obtain ys where ys: "map f xs = map Some ys" by blast
  from Cons.prems obtain y where "f x = Some y" by fastforce
  with ys have "map f (x # xs) = map Some (y # ys)" by simp
  then show ?case by blast
qed

lemma pool_map_Inr_iff:
  "pool_map f xs completion = Inr ys \<longleftrightarrow> map f xs = map Inr ys"
proof
  assume r: "pool_map f xs completion = Inr ys"
  then have none: "List.map_filter (\<lambda>(k, r). case r of Inl e \<Rightarrow> Some e | Inr y \<Rightarrow> None)
       (map (\<lambda>k. (k, f (xs ! k))) (completion_order (length xs) completion)) = []"
    by (auto simp: pool_map_def Let_def split: list.splits)
  then have "\<forall>k < length xs. \<exists>y. f (xs ! k) = Inr y"
    by (simp add: failures_empty_iff set_completion_order)
  then obtain zs where zs: "map f xs = map Inr zs" using all_Inr_map by blast
  from r none have "ys = List.map_filter (\<lambda>slot. case slot of Some (Inr y) \<Rightarrow> Some y | _ \<Rightarrow> None)
       (map (\<lambda>x. Some (f x)) xs)"
    by (simp add: pool_map_def Let_def slots_filled)
  with zs show "map f xs = map Inr ys" by (simp add: collect_slots)
next
  assume m: "map f xs = map Inr ys"
  then have "\<forall>k < length xs. \<exists>y. f (xs ! k) = Inr y"
    by (metis length_map nth_map)
  then have none: "List.map_filter (\<lambda>(k, r). case r of Inl e \<Rightarrow> Some e | Inr y \<Rightarrow> None)
       (map (\<lambda>k. (k, f (xs ! k))) (completion_order (length xs) completion)) = []"
    by (simp add: failures_empty_iff set_completion_order)
  show "pool_map f xs completion = Inr ys"
    using none collect_slots [OF m] by (simp add: pool_map_def Let_def slots_filled)
qed


lemma aggregate_loop_temps_present:
  "aggregate_loop mx mn cur series = Inr res \<Longrightarrow> \<exists>ts. map temp series = map Some ts"
proof (induction series arbitrary: mx mn cur res)
  case Nil
  then show ?case by simp
next
  case (Cons img rest)
  from Cons.prems obtain t where t: "temp img = Some t"
    by (auto split: option.splits)
  from Cons.prems t obtain mx1 mn1 res1 where
    "aggregate_loop mx1 mn1 (cur @ [t]) rest = Inr res1"
    by (auto simp: Let_def split: sum.splits)
  with Cons.IH obtain ts where "map temp rest = map Some ts" by blast
  with t have "map temp (img # rest) = map Some (t # ts)" by simp
  then show ?case by blast
qed

lemma aggregate_loop_returns:
  "map temp series = map Some ts \<Longrightarrow> \<exists>res. aggregate_loop mx mn cur series = Inr res"
proof (induction series arbitrary: mx mn cur ts)
  case Nil
  then show ?case by simp
next
  case (Cons img rest)
  from Cons.prems obtain t ts' where t: "temp img = Some t" "map temp rest = map Some ts'"
    by (cases ts) auto
  from Cons.IH [OF t(2)] obtain res1 where
    "aggregate_loop (case mx of None \<Rightarrow> Some t | Some m \<Rightarrow> if t > m then Some t else Some m)
        (case mn of None \<Rightarrow> Some t | Some m \<Rightarrow> if t < m then Some t else Some m)
        (cur @ [t]) rest = Inr res1"
    by blast
  with t(1) show ?case
    by (cases res1) (simp add: Let_def)
qed

lemma aggregate_loop_length:
  "aggregate_loop mx mn cur series = Inr (mx', mn', out) \<Longrightarrow> length out = length series"
  by (induction series arbitrary: mx mn cur mx' mn' out)
     (auto simp: Let_def split: option.splits sum.splits)

lemma aggregate_loop_nth:
  "aggregate_loop mx mn cur series = Inr (mx', mn', out) \<Longrightarrow> map temp series = map Some ts
     \<Longrightarrow> k < length series
     \<Longrightarrow> out ! k = (series ! k)\<lparr>temps := Some (cur @ take (Suc k) ts)\<rparr>"
proof (induction series arbitrary: mx mn cur mx' mn' out ts k)
  case Nil
  then show ?case by simp
next
  case (Cons img rest)
  from Cons.prems(2) obtain t ts' where ts: "ts = t # ts'" "temp img = Some t"
      "map temp rest = map Some ts'"
    by (cases ts) auto
  from Cons.prems(1) ts obtain mx1 mn1 out' where
      rec: "aggregate_loop mx1 mn1 (cur @ [t]) rest = Inr (mx', mn', out')"
      and out: "out = img\<lparr>temps := Some (cur @ [t])\<rparr> # out'"
    by (auto simp: Let_def split: sum.splits)
  show ?case
  proof (cases k)
    case 0
    with out ts show ?thesis by simp
  next
    case (Suc j)
    with Cons.prems(3) have "j < length rest" by simp
    from Cons.IH [OF rec ts(3) this] Suc out ts show ?thesis by simp
  qed
qed

lemma aggregate_loop_max_from_Some:
  "aggregate_loop (Some m) mn cur series = Inr (mx', mn', out) \<Longrightarrow> map temp series = map Some ts
     \<Longrightarrow> mx' = Some (Max (insert m (set ts)))"
proof (induction series arbitrary: m mn cur mx' mn' out ts)
  case Nil
  then show ?case by simp
next
  case (Cons img rest)
  from Cons.prems(2) obtain t ts' where ts: "ts = t # ts'" "temp img = Some t"
      "map temp rest = map Some ts'"
    by (cases ts) auto
  from Cons.prems(1) ts obtain mn1 out' where
      rec: "aggregate_loop (Some (max m t)) mn1 (cur @ [t]) rest = Inr (mx', mn', out')"
    by (auto simp: Let_def max_def split: sum.splits if_splits)
  from Cons.IH [OF rec ts(3)] have "mx' = Some (Max (insert (max m t) (set ts')))" .
  moreover have "Max (insert (max m t) (set ts')) = Max (insert m (set ts))"
    using ts(1) by (cases "ts' = []") (simp_all add: max.assoc max.commute max.left_commute)
  ultimately show ?case by simp
qed

lemma aggregate_loop_min_from_Some:
  "aggregate_loop mx (Some m) cur series = Inr (mx', mn', out) \<Longrightarrow> map temp series = map Some ts
     \<Longrightarrow> mn' = Some (Min (insert m (set ts)))"
proof (induction series arbitrary: m mx cur mx' mn' out ts)
  case Nil
  then show ?case by simp
next
  case (Cons img rest)
  from Cons.prems(2) obtain t ts' where ts: "ts = t # ts'" "temp img = Some t"
      "map temp rest = map Some ts'"
    by (cases ts) auto
  from Cons.prems(1) ts obtain mx1 out' where
      rec: "aggregate_loop mx1 (Some (min m t)) (cur @ [t]) rest = Inr (mx', mn', out')"
    by (auto simp: Let_def min_def split: sum.splits if_splits)
  from Cons.IH [OF rec ts(3)] have "mn' = Some (Min (insert (min m t) (set ts')))" .
  moreover have "Min (insert (min m t) (set ts')) = Min (insert m (set ts))"
    using ts(1) by (cases "ts' = []") (simp_all add: min.assoc min.commute min.left_commute)
  ultimately show ?case by simp
qed

lemma aggregate_loop_fresh:
  assumes "aggregate_loop None None cur series = Inr (mx', mn', out)"
      and "map temp series = map Some ts" and "series \<noteq> []"
  shows "mx' = Some (Max (set ts)) \<and> mn' = Some (Min (set ts))"
proof -
  from assms(2,3) obtain img rest t ts' where s: "series = img # rest" "ts = t # ts'"
      "temp img = Some t" "map temp rest = map Some ts'"
    by (cases series; cases ts) auto
  from assms(1) s obtain out' where
      rec: "aggregate_loop (Some t) (Some t) (cur @ [t]) rest = Inr (mx', mn', out')"
    by (auto simp: Let_def split: sum.splits)
  from aggregate_loop_max_from_Some [OF rec s(4)] aggregate_loop_min_from_Some [OF rec s(4)] s(2)
  show ?thesis by simp
qed

lemma process_image_result:
  "process_image self env file_meta = Inr r \<Longrightarrow>
     index r = index file_meta \<and> file_name r = file_name file_meta \<and> order r = order file_meta
     \<and> (\<exists>t. temp r = Some t)"
  by (auto simp: process_image_def Let_def split: option.splits sum.splits if_splits)

lemma load_images_index:
  "load_images self env = Inr self1 \<Longrightarrow> k < length (image_series self1)
     \<Longrightarrow> index (image_series self1 ! k) = Some (Suc k)"
  by (auto simp: load_images_def length_set_indexes set_indexes_nth split: sum.splits)

lemma process_images_order_irrelevant:
  "process_images self env completion = Inr self2
     \<Longrightarrow> process_images self env completion' = Inr self2"
proof -
  assume a: "process_images self env completion = Inr self2"
  then obtain series where
      p: "pool_map (process_image self (pool_worker env)) (image_series self) completion = Inr series"
    by (auto simp: process_images_def split: sum.splits)
  then have "pool_map (process_image self (pool_worker env)) (image_series self) completion'
               = Inr series"
    by (simp add: pool_map_Inr_iff)
  with a p show ?thesis by (simp add: process_images_def)
qed

lemma pool_map_all_fail:
  assumes "xs \<noteq> []" and "\<And>x. x \<in> set xs \<Longrightarrow> f x = Inl e"
  shows "pool_map f xs completion = Inl e"
proof -
  let ?ord = "completion_order (length xs) completion"
  from assms(1) have "0 \<in> set ?ord" by (simp add: set_completion_order)
  then obtain k ks where ord: "?ord = k # ks" by (cases ?ord) auto
  then have "k \<in> set ?ord" by simp
  then have "k < length xs" by (simp add: set_completion_order)
  then have "f (xs ! k) = Inl e" using assms(2) by simp
  with ord show ?thesis by (simp add: pool_map_def Let_def List.map_filter_simps)
qed

lemma process_image_callable_parser:
  "temperature_text_parser self = PyFunc f \<Longrightarrow> isl (process_image self env file_meta)"
  by (simp add: process_image_def Let_def split: option.splits sum.splits)

lemma process_images_callable_parser:
  assumes "temperature_text_parser self = PyFunc f" and "image_series self \<noteq> []"
  shows "isl (process_images self env completion)"
proof (cases "pool_map (process_image self (pool_worker env)) (image_series self) completion")
  case (Inl e)
  then show ?thesis by (simp add: process_images_def)
next
  case (Inr series)
  then have m: "map (process_image self (pool_worker env)) (image_series self) = map Inr series"
    by (simp add: pool_map_Inr_iff)
  from assms(2) obtain x xs where x: "image_series self = x # xs"
    by (cases "image_series self") auto
  with m obtain y where "process_image self (pool_worker env) x = Inr y"
    by (cases series) auto
  with process_image_callable_parser [OF assms(1), of "pool_worker env" x] show ?thesis
    by simp
qed

lemma example_default_load:
  "load_images example_self example_env_readings = Inr example_default_loaded"
proof -
  have "load_loop example_self [''c.png'', ''notes.txt'', ''a.jpg'', ''B.JPG'']
          = Inr [\<lparr> image_val = None, file_name = ''c.png'', temp = None,
                    order = NameKey ''c.png'', index = None, temps = None \<rparr>,
                 \<lparr> image_val = None, file_name = ''a.jpg'', temp = None,
                    order = NameKey ''a.jpg'', index = None, temps = None \<rparr>,
                 \<lparr> image_val = None, file_name = ''B.JPG'', temp = None,
                    order = NameKey ''B.JPG'', index = None, temps = None \<rparr>]"
    by code_simp
  moreover have "set_indexes (sorted_by_order
                 [\<lparr> image_val = None, file_name = ''c.png'', temp = None,
                    order = NameKey ''c.png'', index = None, temps = None \<rparr>,
                 \<lparr> image_val = None, file_name = ''a.jpg'', temp = None,
                    order = NameKey ''a.jpg'', index = None, temps = None \<rparr>,
                 \<lparr> image_val = None, file_name = ''B.JPG'', temp = None,
                    order = NameKey ''B.JPG'', index = None, temps = None \<rparr>])
       = [loaded_record ''B.JPG'' 1, loaded_record ''a.jpg'' 2, loaded_record ''c.png'' 3]"
    by code_simp
  moreover have "listdir example_env_readings
                   (case images_directory example_self of None \<Rightarrow> ''.'' | Some d \<Rightarrow> d)
                 = Inr [''c.png'', ''notes.txt'', ''a.jpg'', ''B.JPG'']"
    by (simp add: example_env_readings_def example_env_def example_self_def)
  ultimately show ?thesis
    by (simp add: load_images_def example_default_loaded_def)
qed

lemma example_default_tasks:
  "x \<in> set (image_series example_default_loaded)
     \<Longrightarrow> process_image example_default_loaded (pool_worker example_env_readings) x = Inl TypeError"
  by (auto simp: process_image_def example_default_loaded_def example_self_def timelapse_init_def
        pool_worker_def example_env_readings_def example_env_def Let_def)

text \<open>
  Claim C1. The claim says that after a run of \<^verbatim>\<open>process_images\<close> every dictionary carries
  the temperatures up to its own. With the default configuration, on a directory of three
  images whose overlays the default parser reads as 50, 61 and 55, \<^verbatim>\<open>load_images\<close> returns
  and \<^verbatim>\<open>process_images\<close> raises \<^verbatim>\<open>TypeError\<close> in the pool, whatever the order in which the
  tasks finish: the loop that builds the histories is not reached, and no dictionary
  receives the key \<^verbatim>\<open>'temps'\<close>.
\<close>

theorem process_images_raises_in_pool:
  "load_images example_self example_env_readings = Inr example_default_loaded
   \<and> parse_temperature_text (overlay ''10'' ''50'') = Inr ''50''
   \<and> parse_temperature_text (overlay ''16'' ''61'') = Inr ''61''
   \<and> parse_temperature_text (overlay ''13'' ''55'') = Inr ''55''
   \<and> process_images example_default_loaded example_env_readings completion = Inl TypeError"
proof -
  have "parse_temperature_text (overlay ''10'' ''50'') = Inr ''50''"
       "parse_temperature_text (overlay ''16'' ''61'') = Inr ''61''"
       "parse_temperature_text (overlay ''13'' ''55'') = Inr ''55''"
    by code_simp+
  moreover have "image_series example_default_loaded \<noteq> []"
    by (simp add: example_default_loaded_def)
  then have "pool_map (process_image example_default_loaded (pool_worker example_env_readings))
               (image_series example_default_loaded) completion = Inl TypeError"
    using example_default_tasks by (rule pool_map_all_fail)
  then have "process_images example_default_loaded example_env_readings completion = Inl TypeError"
    by (simp add: process_images_def)
  ultimately show ?thesis using example_default_load by simp
qed

text \<open>
  Claim C3. The claim says that after the aggregation loop \<^verbatim>\<open>deg_min\<close> and \<^verbatim>\<open>deg_max\<close> are
  the minimum and the maximum of the temperatures. On the same input (temperatures 50, 61
  and 55 on the overlays) the pool raises \<^verbatim>\<open>TypeError\<close> for every completion order, so the
  loop does not run: \<^verbatim>\<open>deg_min\<close> and \<^verbatim>\<open>deg_max\<close> keep the value \<^verbatim>\<open>None\<close> they have before the
  call, not 50 and 61.
\<close>

theorem aggregation_loop_not_reached:
  "deg_min example_default_loaded = None \<and> deg_max example_default_loaded = None
   \<and> temperature_text_parser example_default_loaded = PyFunc parse_temperature_text
   \<and> pool_map (process_image example_default_loaded (pool_worker example_env_readings))
        (image_series example_default_loaded) completion = Inl TypeError"
proof -
  have "image_series example_default_loaded \<noteq> []"
    by (simp add: example_default_loaded_def)
  then have "pool_map (process_image example_default_loaded (pool_worker example_env_readings))
               (image_series example_default_loaded) completion = Inl TypeError"
    using example_default_tasks by (rule pool_map_all_fail)
  then show ?thesis
    by (simp add: example_default_loaded_def example_self_def timelapse_init_def)
qed

section \<open>Frame file names\<close>

lemma digit_chars_nth:
  "d < 10 \<Longrightarrow> is_digit (digit_chars ! d) \<and> digit_val (digit_chars ! d) = d"
proof -
  assume "d < 10"
  then have "d \<in> {0, 1, 2, 3, 4, 5, 6, 7, 8, 9}" by auto
  then show ?thesis
    by (auto simp: is_digit_def digit_val_def digit_chars_def)
qed

lemma str_nat_all_digits: "list_all is_digit (str_nat n)"
proof (induction n rule: str_nat.induct)
  case (1 n)
  show ?case
  proof (cases "n < 10")
    case True
    then show ?thesis by (subst str_nat.simps) (simp add: digit_chars_nth)
  next
    case False
    with 1 have "list_all is_digit (str_nat (n div 10))" by simp
    moreover have "is_digit (digit_chars ! (n mod 10))" by (simp add: digit_chars_nth)
    ultimately show ?thesis using False by (subst str_nat.simps) simp
  qed
qed

lemma filter_all: "list_all P xs \<Longrightarrow> filter P xs = xs"
  by (induction xs) auto

lemma digits_value_str_nat: "digits_value (str_nat n) = n"
proof (induction n rule: str_nat.induct)
  case (1 n)
  show ?case
  proof (cases "n < 10")
    case True
    then show ?thesis
      by (subst str_nat.simps) (simp add: digits_value_def digit_chars_nth)
  next
    case False
    with 1 have ih: "digits_value (str_nat (n div 10)) = n div 10" by simp
    have "digits_value (str_nat n)
            = 10 * digits_value (str_nat (n div 10)) + digit_val (digit_chars ! (n mod 10))"
      using False
      by (subst str_nat.simps)
         (simp add: digits_value_def filter_all str_nat_all_digits digit_chars_nth)
    with ih show ?thesis by (simp add: digit_chars_nth)
  qed
qed

lemma str_nat_nonempty: "str_nat n \<noteq> []"
  by (subst str_nat.simps) simp

lemma length_str_nat_bounds:
  "n < 10 ^ length (str_nat n) \<and> (0 < n \<longrightarrow> 10 ^ (length (str_nat n) - 1) \<le> n)"
proof (induction n rule: str_nat.induct)
  case (1 n)
  show ?case
  proof (cases "n < 10")
    case True
    then show ?thesis by (subst (1 2) str_nat.simps) auto
  next
    case False
    with 1 have ih: "n div 10 < 10 ^ length (str_nat (n div 10))"
        "10 ^ (length (str_nat (n div 10)) - 1) \<le> n div 10"
      by auto
    have len: "length (str_nat n) = Suc (length (str_nat (n div 10)))"
      using False by (subst str_nat.simps) simp
    have pos: "0 < length (str_nat (n div 10))"
      using str_nat_nonempty by simp
    from ih(1) have "n < 10 * 10 ^ length (str_nat (n div 10))" by simp
    moreover from ih(2) have "10 * 10 ^ (length (str_nat (n div 10)) - 1) \<le> n" by simp
    then have "10 ^ length (str_nat (n div 10)) \<le> n"
      using pos by (cases "length (str_nat (n div 10))") simp_all
    ultimately show ?thesis by (simp add: len)
  qed
qed

lemma length_str_nat_mono: "k \<le> n \<Longrightarrow> length (str_nat k) \<le> length (str_nat n)"
proof (rule ccontr)
  assume kn: "k \<le> n" and "\<not> length (str_nat k) \<le> length (str_nat n)"
  then have lt: "length (str_nat n) \<le> length (str_nat k) - 1" by simp
  then have k0: "0 < k"
    using str_nat_nonempty [of n] by (cases "k = 0") (simp_all add: str_nat.simps [of 0])
  have "n < 10 ^ length (str_nat n)" using length_str_nat_bounds by blast
  also have "(10::nat) ^ length (str_nat n) \<le> 10 ^ (length (str_nat k) - 1)"
    using lt by (simp add: power_increasing)
  also have "\<dots> \<le> k" using length_str_nat_bounds k0 by blast
  finally show False using kn by simp
qed

lemma format_nat_zero_padded:
  "format_nat k (CHR ''0'' # str_nat w)
     = Inr (replicate (w - length (str_nat k)) (CHR ''0'') @ str_nat k)"
  by (simp add: format_nat_def Let_def str_nat_all_digits digits_value_str_nat)

lemma new_filename_eq:
  "new_filename k w
     = Inr (''TIMELAPSE'' @ replicate (w - length (str_nat k)) (CHR ''0'') @ str_nat k @ ''.JPG'')"
  by (simp add: new_filename_def format_nat_zero_padded)

lemma draw_graph_index:
  "draw_graph self env img = Inr image_obj \<Longrightarrow> index image_obj = index img"
  by (auto simp: draw_graph_def Let_def split: option.splits sum.splits)


lemma render_copy_loop_names:
  "render_copy_loop self env w idx series = (written, err) \<Longrightarrow>
     length written \<le> length series
     \<and> (err = None \<longrightarrow> length written = length series)
     \<and> (\<forall>j < length written. \<exists>d name. save_directory self = Some d
            \<and> new_filename (idx + j) w = Inr name \<and> fst (written ! j) = path_join d name)"
proof (induction series arbitrary: idx written err)
  case Nil
  then show ?case by simp
next
  case (Cons image_obj rest)
  show ?case
  proof (cases "written = []")
    case True
    with Cons.prems show ?thesis
      by (auto split: sum.splits option.splits prod.splits) metis+
  next
    case False
    with Cons.prems obtain name d written' where
        n: "new_filename idx w = Inr name" and d: "save_directory self = Some d"
        and rec: "render_copy_loop self env w (Suc idx) rest = (written', err)"
        and w: "fst (hd written) = path_join d name" "tl written = written'"
      by (auto split: sum.splits option.splits prod.splits)
    from False w have wr: "written = hd written # written'" by (cases written) auto
    note ih = Cons.IH [OF rec]
    have "\<exists>d name. save_directory self = Some d
            \<and> new_filename (idx + j) w = Inr name \<and> fst (written ! j) = path_join d name"
      if j: "j < length written" for j
    proof (cases j)
      case 0
      with n d w wr show ?thesis by (metis add_0_right nth_Cons_0)
    next
      case (Suc j')
      with j wr have "j' < length written'" by (metis Suc_less_eq length_Cons)
      with ih obtain d' name' where "save_directory self = Some d'"
          "new_filename (Suc idx + j') w = Inr name'" "fst (written' ! j') = path_join d' name'"
        by blast
      moreover have "written ! j = written' ! j'" using Suc wr by (metis nth_Cons_Suc)
      ultimately show ?thesis using Suc by simp
    qed
    moreover have "length written = Suc (length written')" using wr by (metis length_Cons)
    ultimately show ?thesis using ih by simp
  qed
qed

lemma render_graph_loop_names:
  "render_graph_loop self env w series = (written, err) \<Longrightarrow>
     length written \<le> length series
     \<and> (err = None \<longrightarrow> length written = length series)
     \<and> (\<forall>j < length written. \<exists>d name i. save_directory self = Some d
            \<and> index (series ! j) = Some i
            \<and> new_filename i w = Inr name \<and> fst (written ! j) = path_join d name)"
proof (induction series arbitrary: written err)
  case Nil
  then show ?case by simp
next
  case (Cons img rest)
  show ?case
  proof (cases "written = []")
    case True
    with Cons.prems show ?thesis
      by (auto split: sum.splits option.splits prod.splits) metis+
  next
    case False
    with Cons.prems obtain image_obj i name d written' where
        g: "draw_graph self env img = Inr image_obj" and i: "index image_obj = Some i"
        and n: "new_filename i w = Inr name" and d: "save_directory self = Some d"
        and rec: "render_graph_loop self env w rest = (written', err)"
        and w: "fst (hd written) = path_join d name" "tl written = written'"
      by (auto split: sum.splits option.splits prod.splits)
    from g i have i': "index img = Some i" by (simp add: draw_graph_index)
    from False w have wr: "written = hd written # written'" by (cases written) auto
    note ih = Cons.IH [OF rec]
    have "\<exists>d name i. save_directory self = Some d \<and> index ((img # rest) ! j) = Some i
            \<and> new_filename i w = Inr name \<and> fst (written ! j) = path_join d name"
      if j: "j < length written" for j
    proof (cases j)
      case 0
      with n d w wr i' show ?thesis by (metis nth_Cons_0)
    next
      case (Suc j')
      with j wr have "j' < length written'" by (metis Suc_less_eq length_Cons)
      with ih obtain d' name' i2 where "save_directory self = Some d'"
          "index (rest ! j') = Some i2"
          "new_filename i2 w = Inr name'" "fst (written' ! j') = path_join d' name'"
        by blast
      moreover have "written ! j = written' ! j'" using Suc wr by (metis nth_Cons_Suc)
      ultimately show ?thesis using Suc by simp
    qed
    moreover have "length written = Suc (length written')" using wr by (metis length_Cons)
    ultimately show ?thesis using ih by simp
  qed
qed


lemma render_copy_loop_complete:
  "images_directory self = Some a \<Longrightarrow> save_directory self = Some d
     \<Longrightarrow> (\<And>p. read_error env p = None) \<Longrightarrow> (\<And>p. write_error env p = None)
     \<Longrightarrow> snd (render_copy_loop self env w idx series) = None"
proof (induction series arbitrary: idx)
  case Nil
  then show ?case by simp
next
  case (Cons image_obj rest)
  from Cons.IH [OF Cons.prems, of "Suc idx"]
  have "snd (render_copy_loop self env w (Suc idx) rest) = None" .
  with Cons.prems show ?case
    by (cases "render_copy_loop self env w (Suc idx) rest") (simp add: new_filename_eq)
qed

lemma draw_ticks_returns:
  "deg_min self = Some mn \<Longrightarrow> \<exists>im'. draw_ticks self current_deg mx im = Inr im'"
proof (induction self current_deg mx im rule: draw_ticks.induct)
  case (1 self current_deg mx im)
  from "1.prems" obtain y where y: "get_temp_y_point self current_deg = Inr y"
    by (simp add: get_temp_y_point_def)
  show ?case
  proof (cases "current_deg \<le> mx")
    case False
    then show ?thesis by (subst draw_ticks.simps) simp
  next
    case le: True
    show ?thesis
    proof (cases "current_deg mod 10 = 0")
      case True
      from "1.IH"(1) [OF le True y "1.prems"] le True y show ?thesis
        by (subst draw_ticks.simps) simp
    next
      case False
      from "1.IH"(2) [OF le False "1.prems"] le False show ?thesis
        by (subst draw_ticks.simps) simp
    qed
  qed
qed

lemma draw_grid_returns:
  assumes "deg_min self = Some mn" and "deg_max self = Some mx"
      and "truetype_error env (graph_label_font self) = None"
  shows "\<exists>im'. draw_grid self env im = Inr im'"
proof -
  let ?x0 = "real_of_int (graph_width_margin self + padding self)"
  let ?y0 = "real_of_int (graph_height_margin self + graph_height self - padding self)"
  let ?x1 = "real_of_int (graph_width_margin self + graph_width self - padding self)"
  let ?im2 = "draw_op_on
                (draw_op_on im
                   (Line ?x0 ?y0 ?x0 (real_of_int (graph_height_margin self + padding self)) 2))
                (Line ?x0 ?y0 ?x1 ?y0 2)"
  from draw_ticks_returns [OF assms(1)] obtain im3 where
      t: "draw_ticks self mn mx ?im2 = Inr im3" by blast
  from assms(1) obtain y where y: "get_temp_y_point self 32 = Inr y"
    by (simp add: get_temp_y_point_def)
  from assms t y show ?thesis
    by (simp add: draw_grid_def Let_def)
qed

lemma add_temps_loop_returns:
  "deg_min self = Some mn \<Longrightarrow> length (image_series self) \<noteq> 1
     \<Longrightarrow> \<exists>im'. add_temps_loop self idx last_point ts im = Inr im'"
proof (induction ts arbitrary: idx last_point im)
  case Nil
  then show ?case by simp
next
  case (Cons point rest)
  from Cons.prems obtain y x where
      y: "get_temp_y_point self point = Inr y" and x: "get_x_point self idx = Inr x"
    by (simp add: get_temp_y_point_def get_x_point_def Let_def)
  show ?case
    using Cons.IH [OF Cons.prems] by (simp add: y x Let_def)
qed

lemma draw_graph_returns:
  assumes "image_val img = Some im" and "temps img = Some ts"
      and "deg_min self = Some mn" and "deg_max self = Some mx"
      and "length (image_series self) \<noteq> 1"
      and "truetype_error env (graph_label_font self) = None"
  shows "\<exists>img'. draw_graph self env img = Inr img' \<and> index img' = index img
                \<and> image_val img' \<noteq> None"
proof -
  from draw_grid_returns [OF assms(3,4,6)] obtain im2 where
      g: "draw_grid self env (draw_graph_borders self im) = Inr im2" by blast
  from add_temps_loop_returns [OF assms(3,5)] obtain im3 where
      a: "add_temps_loop self 0 None ts im2 = Inr im3" by blast
  from assms(1,2) g a show ?thesis
    by (simp add: draw_graph_def add_temps_def Let_def)
qed

lemma render_graph_loop_complete:
  assumes "save_directory self = Some d" and "\<And>p. write_error env p = None"
      and "deg_min self = Some mn" and "deg_max self = Some mx"
      and "length (image_series self) \<noteq> 1"
      and "truetype_error env (graph_label_font self) = None"
  shows "(\<And>r. r \<in> set series \<Longrightarrow> image_val r \<noteq> None \<and> temps r \<noteq> None \<and> index r \<noteq> None)
           \<Longrightarrow> snd (render_graph_loop self env w series) = None"
proof (induction series)
  case Nil
  then show ?case by simp
next
  case (Cons img rest)
  from Cons.prems [of img] obtain im ts i where
      r: "image_val img = Some im" "temps img = Some ts" "index img = Some i"
    by auto
  from draw_graph_returns [OF r(1,2) assms(3,4,5,6)] obtain img' im' where
      g: "draw_graph self env img = Inr img'" "index img' = index img" "image_val img' = Some im'"
    by auto
  have "snd (render_graph_loop self env w rest) = None"
    using Cons.IH Cons.prems by simp
  with g r assms(1,2) show ?case
    by (cases "render_graph_loop self env w rest") (simp add: new_filename_eq)
qed

text \<open>
  Claim C8. In a series whose dictionaries carry the indexes 1 to \<open>N\<close> in order,
  \<^verbatim>\<open>render_images\<close>, with or without the graph, writes at most \<open>N\<close> files, and all \<open>N\<close> when
  no exception ends the loop. No exception ends it when the save directory is set, files
  can be written and, with the graph, the temperature range and the font are set, the
  series does not hold exactly one frame and every dictionary holds an image and a
  history; without the graph, when the images directory is set and files can be read.
  The \<open>j\<close>-th file written (counting from zero) is named, inside the save directory,
  \<open>TIMELAPSE\<close>, then the index \<open>j + 1\<close> padded with zeros on the left to the number of
  decimal digits of \<open>N\<close>, then \<open>.JPG\<close>. The padded index has exactly that many characters,
  and that number \<open>w\<close> is the digit count of \<open>N\<close>: \<open>10 ^ (w - 1) \<le> N < 10 ^ w\<close>. The instance
  that follows gives, with the graph and without it, all the frames written and the first
  and last names for 125 frames and names for 9, 10, 99, 100, 999 and 1000 frames.
\<close>

theorem output_frame_filenames:
  assumes "render_images self env add_graph = (written, err)"
      and "map index (image_series self) = map Some [1..<Suc (length (image_series self))]"
  shows "length written \<le> length (image_series self)
         \<and> (err = None \<longrightarrow> length written = length (image_series self))
         \<and> (save_directory self \<noteq> None \<and> (\<forall>p. write_error env p = None)
              \<and> (if add_graph
                  then deg_min self \<noteq> None \<and> deg_max self \<noteq> None
                       \<and> length (image_series self) \<noteq> 1
                       \<and> truetype_error env (graph_label_font self) = None
                       \<and> (\<forall>r \<in> set (image_series self). image_val r \<noteq> None \<and> temps r \<noteq> None)
                  else images_directory self \<noteq> None \<and> (\<forall>p. read_error env p = None))
              \<longrightarrow> err = None)
         \<and> (\<forall>j < length written.
               (\<exists>d. save_directory self = Some d
                  \<and> fst (written ! j)
                      = path_join d
                          (''TIMELAPSE''
                           @ replicate (length (str_nat (length (image_series self)))
                                        - length (str_nat (Suc j))) (CHR ''0'')
                           @ str_nat (Suc j) @ ''.JPG''))
               \<and> length (replicate (length (str_nat (length (image_series self)))
                                     - length (str_nat (Suc j))) (CHR ''0'') @ str_nat (Suc j))
                   = length (str_nat (length (image_series self))))
         \<and> length (image_series self) < 10 ^ length (str_nat (length (image_series self)))
         \<and> (0 < length (image_series self) \<longrightarrow>
               10 ^ (length (str_nat (length (image_series self))) - 1)
                 \<le> length (image_series self))"
proof -
  let ?N = "length (image_series self)"
  let ?w = "length (str_nat ?N)"
  have idx: "index (image_series self ! j) = Some (Suc j)" if "j < ?N" for j
  proof -
    have "index (image_series self ! j) = map index (image_series self) ! j"
      using that by simp
    also have "\<dots> = Some (Suc j)" using that by (simp add: assms(2) del: upt_Suc)
    finally show ?thesis .
  qed
  have loop: "length written \<le> ?N \<and> (err = None \<longrightarrow> length written = ?N)
      \<and> (\<forall>j < length written. \<exists>d name. save_directory self = Some d
             \<and> new_filename (Suc j) ?w = Inr name \<and> fst (written ! j) = path_join d name)"
  proof (cases add_graph)
    case True
    with assms(1) have r: "render_graph_loop self env ?w (image_series self) = (written, err)"
      by (simp add: render_images_def)
    note l = render_graph_loop_names [OF r]
    have "\<exists>d name. save_directory self = Some d
             \<and> new_filename (Suc j) ?w = Inr name \<and> fst (written ! j) = path_join d name"
      if j: "j < length written" for j
    proof -
      from l j obtain d name i where dn: "save_directory self = Some d"
          "index (image_series self ! j) = Some i" "new_filename i ?w = Inr name"
          "fst (written ! j) = path_join d name"
        by blast
      from l j have "j < ?N" by simp
      with idx dn(2) have "i = Suc j" by simp
      with dn show ?thesis by blast
    qed
    with l show ?thesis by blast
  next
    case False
    with assms(1) have r: "render_copy_loop self env ?w 1 (image_series self) = (written, err)"
      by (simp add: render_images_def)
    from render_copy_loop_names [OF r] show ?thesis by simp
  qed
  have complete: "err = None"
    if c: "save_directory self \<noteq> None \<and> (\<forall>p. write_error env p = None)
              \<and> (if add_graph
                  then deg_min self \<noteq> None \<and> deg_max self \<noteq> None
                       \<and> length (image_series self) \<noteq> 1
                       \<and> truetype_error env (graph_label_font self) = None
                       \<and> (\<forall>r \<in> set (image_series self). image_val r \<noteq> None \<and> temps r \<noteq> None)
                  else images_directory self \<noteq> None \<and> (\<forall>p. read_error env p = None))"
  proof (cases add_graph)
    case True
    from c obtain d where d: "save_directory self = Some d" by auto
    from c True obtain mn mx where m: "deg_min self = Some mn" "deg_max self = Some mx" by auto
    have w: "\<And>p. write_error env p = None" using c by simp
    have n: "length (image_series self) \<noteq> 1"
         "truetype_error env (graph_label_font self) = None"
      using c True by simp_all
    have "image_val r \<noteq> None \<and> temps r \<noteq> None \<and> index r \<noteq> None"
      if "r \<in> set (image_series self)" for r
    proof -
      from that obtain j where "j < ?N" "r = image_series self ! j"
        by (metis in_set_conv_nth)
      with idx have "index r \<noteq> None" by simp
      with c True that show ?thesis by simp
    qed
    then have "snd (render_graph_loop self env ?w (image_series self)) = None"
      by (rule render_graph_loop_complete [OF d w m n])
    with assms(1) True show ?thesis by (simp add: render_images_def)
  next
    case False
    from c obtain d where d: "save_directory self = Some d" by auto
    from c False obtain a where a: "images_directory self = Some a" by auto
    have "snd (render_copy_loop self env ?w 1 (image_series self)) = None"
      using c False by (intro render_copy_loop_complete [OF a d]) simp_all
    with assms(1) False show ?thesis by (simp add: render_images_def)
  qed
  have names: "(\<exists>d. save_directory self = Some d
                  \<and> fst (written ! j)
                      = path_join d
                          (''TIMELAPSE'' @ replicate (?w - length (str_nat (Suc j))) (CHR ''0'')
                           @ str_nat (Suc j) @ ''.JPG''))
               \<and> length (replicate (?w - length (str_nat (Suc j))) (CHR ''0'') @ str_nat (Suc j))
                   = ?w"
    if j: "j < length written" for j
  proof -
    from loop j have "Suc j \<le> ?N" by simp
    then have "length (str_nat (Suc j)) \<le> ?w" by (rule length_str_nat_mono)
    then have "length (replicate (?w - length (str_nat (Suc j))) (CHR ''0'') @ str_nat (Suc j))
                 = ?w"
      by simp
    moreover from loop j obtain d name where "save_directory self = Some d"
        "new_filename (Suc j) ?w = Inr name" "fst (written ! j) = path_join d name"
      by blast
    ultimately show ?thesis by (simp add: new_filename_eq)
  qed
  from loop complete names length_str_nat_bounds [of ?N] show ?thesis by blast
qed

theorem output_frame_filenames_witness:
  "map index (image_series (example_frames 125))
     = map Some [1..<Suc (length (image_series (example_frames 125)))]
   \<and> render_images (example_frames 125) example_env True
       = (fst (render_images (example_frames 125) example_env True), None)
   \<and> length (fst (render_images (example_frames 125) example_env True)) = 125
   \<and> render_images (example_frames 125) example_env False
       = (fst (render_images (example_frames 125) example_env False), None)
   \<and> length (fst (render_images (example_frames 125) example_env False)) = 125
   \<and> fst (fst (render_images (example_frames 125) example_env True) ! 0) = ''save/TIMELAPSE001.JPG''
   \<and> fst (fst (render_images (example_frames 125) example_env True) ! 124) = ''save/TIMELAPSE125.JPG''
   \<and> fst (fst (render_images (example_frames 125) example_env False) ! 0) = ''save/TIMELAPSE001.JPG''
   \<and> fst (fst (render_images (example_frames 125) example_env False) ! 124) = ''save/TIMELAPSE125.JPG''
   \<and> fst (fst (render_images (example_frames 9) example_env True) ! 0) = ''save/TIMELAPSE1.JPG''
   \<and> fst (fst (render_images (example_frames 9) example_env False) ! 8) = ''save/TIMELAPSE9.JPG''
   \<and> fst (fst (render_images (example_frames 10) example_env True) ! 0) = ''save/TIMELAPSE01.JPG''
   \<and> fst (fst (render_images (example_frames 10) example_env False) ! 9) = ''save/TIMELAPSE10.JPG''
   \<and> fst (fst (render_images (example_frames 99) example_env True) ! 0) = ''save/TIMELAPSE01.JPG''
   \<and> fst (fst (render_images (example_frames 99) example_env False) ! 98) = ''save/TIMELAPSE99.JPG''
   \<and> fst (fst (render_images (example_frames 100) example_env True) ! 0) = ''save/TIMELAPSE001.JPG''
   \<and> fst (fst (render_images (example_frames 100) example_env False) ! 99) = ''save/TIMELAPSE100.JPG''
   \<and> fst (fst (render_images (example_frames 999) example_env True) ! 0) = ''save/TIMELAPSE001.JPG''
   \<and> fst (fst (render_images (example_frames 999) example_env False) ! 998) = ''save/TIMELAPSE999.JPG''
   \<and> fst (fst (render_images (example_frames 1000) example_env True) ! 0) = ''save/TIMELAPSE0001.JPG''
   \<and> fst (fst (render_images (example_frames 1000) example_env False) ! 999) = ''save/TIMELAPSE1000.JPG''"
proof -
  have run: "render_images (example_frames n) example_env g
               = (fst (render_images (example_frames n) example_env g), None)
             \<and> length (fst (render_images (example_frames n) example_env g)) = n
             \<and> fst (fst (render_images (example_frames n) example_env g) ! j)
                = path_join ''save''
                    (''TIMELAPSE'' @ replicate (length (str_nat n) - length (str_nat (Suc j))) (CHR ''0'')
                     @ str_nat (Suc j) @ ''.JPG'')"
    if "j < n" and "n \<noteq> 1" for j n g
  proof -
    let ?self = "example_frames n"
    obtain written err where r: "render_images ?self example_env g = (written, err)"
      by (cases "render_images ?self example_env g")
    have len: "length (image_series ?self) = n"
      by (simp add: example_frames_def)
    have idx: "map index (image_series ?self)
                 = map Some [1..<Suc (length (image_series ?self))]"
      by (simp add: example_frames_def processed_record_def comp_def del: upt_Suc)
    have c: "save_directory ?self \<noteq> None \<and> (\<forall>p. write_error example_env p = None)
              \<and> (if g
                  then deg_min ?self \<noteq> None \<and> deg_max ?self \<noteq> None
                       \<and> length (image_series ?self) \<noteq> 1
                       \<and> truetype_error example_env (graph_label_font ?self) = None
                       \<and> (\<forall>r \<in> set (image_series ?self). image_val r \<noteq> None \<and> temps r \<noteq> None)
                  else images_directory ?self \<noteq> None \<and> (\<forall>p. read_error example_env p = None))"
      using that(2)
      by (auto simp: example_frames_def example_self_def example_env_def processed_record_def)
    note th = output_frame_filenames [OF r idx]
    from th c have e: "err = None" by blast
    with th have l: "length written = n" by (simp add: len)
    with that(1) have j: "j < length written" by simp
    from th j obtain d where "save_directory ?self = Some d"
        "fst (written ! j)
           = path_join d
               (''TIMELAPSE''
                @ replicate (length (str_nat (length (image_series ?self)))
                             - length (str_nat (Suc j))) (CHR ''0'')
                @ str_nat (Suc j) @ ''.JPG'')"
      by blast
    then have "fst (written ! j)
                = path_join ''save''
                    (''TIMELAPSE'' @ replicate (length (str_nat n) - length (str_nat (Suc j))) (CHR ''0'')
                     @ str_nat (Suc j) @ ''.JPG'')"
      by (simp add: len) (simp add: example_frames_def example_self_def)
    with r e l show ?thesis by simp
  qed
  have e0: "path_join ''save'' (''TIMELAPSE'' @ replicate (length (str_nat 125) - length (str_nat (Suc 0))) (CHR ''0'') @ str_nat (Suc 0) @ ''.JPG'') = ''save/TIMELAPSE001.JPG''" by code_simp
  have e1: "path_join ''save'' (''TIMELAPSE'' @ replicate (length (str_nat 125) - length (str_nat (Suc 124))) (CHR ''0'') @ str_nat (Suc 124) @ ''.JPG'') = ''save/TIMELAPSE125.JPG''" by code_simp
  have e2: "path_join ''save'' (''TIMELAPSE'' @ replicate (length (str_nat 9) - length (str_nat (Suc 0))) (CHR ''0'') @ str_nat (Suc 0) @ ''.JPG'') = ''save/TIMELAPSE1.JPG''" by code_simp
  have e3: "path_join ''save'' (''TIMELAPSE'' @ replicate (length (str_nat 9) - length (str_nat (Suc 8))) (CHR ''0'') @ str_nat (Suc 8) @ ''.JPG'') = ''save/TIMELAPSE9.JPG''" by code_simp
  have e4: "path_join ''save'' (''TIMELAPSE'' @ replicate (length (str_nat 10) - length (str_nat (Suc 0))) (CHR ''0'') @ str_nat (Suc 0) @ ''.JPG'') = ''save/TIMELAPSE01.JPG''" by code_simp
  have e5: "path_join ''save'' (''TIMELAPSE'' @ replicate (length (str_nat 10) - length (str_nat (Suc 9))) (CHR ''0'') @ str_nat (Suc 9) @ ''.JPG'') = ''save/TIMELAPSE10.JPG''" by code_simp
  have e6: "path_join ''save'' (''TIMELAPSE'' @ replicate (length (str_nat 99) - length (str_nat (Suc 0))) (CHR ''0'') @ str_nat (Suc 0) @ ''.JPG'') = ''save/TIMELAPSE01.JPG''" by code_simp
  have e7: "path_join ''save'' (''TIMELAPSE'' @ replicate (length (str_nat 99) - length (str_nat (Suc 98))) (CHR ''0'') @ str_nat (Suc 98) @ ''.JPG'') = ''save/TIMELAPSE99.JPG''" by code_simp
  have e8: "path_join ''save'' (''TIMELAPSE'' @ replicate (length (str_nat 100) - length (str_nat (Suc 0))) (CHR ''0'') @ str_nat (Suc 0) @ ''.JPG'') = ''save/TIMELAPSE001.JPG''" by code_simp
  have e9: "path_join ''save'' (''TIMELAPSE'' @ replicate (length (str_nat 100) - length (str_nat (Suc 99))) (CHR ''0'') @ str_nat (Suc 99) @ ''.JPG'') = ''save/TIMELAPSE100.JPG''" by code_simp
  have e10: "path_join ''save'' (''TIMELAPSE'' @ replicate (length (str_nat 999) - length (str_nat (Suc 0))) (CHR ''0'') @ str_nat (Suc 0) @ ''.JPG'') = ''save/TIMELAPSE001.JPG''" by code_simp
  have e11: "path_join ''save'' (''TIMELAPSE'' @ replicate (length (str_nat 999) - length (str_nat (Suc 998))) (CHR ''0'') @ str_nat (Suc 998) @ ''.JPG'') = ''save/TIMELAPSE999.JPG''" by code_simp
  have e12: "path_join ''save'' (''TIMELAPSE'' @ replicate (length (str_nat 1000) - length (str_nat (Suc 0))) (CHR ''0'') @ str_nat (Suc 0) @ ''.JPG'') = ''save/TIMELAPSE0001.JPG''" by code_simp
  have e13: "path_join ''save'' (''TIMELAPSE'' @ replicate (length (str_nat 1000) - length (str_nat (Suc 999))) (CHR ''0'') @ str_nat (Suc 999) @ ''.JPG'') = ''save/TIMELAPSE1000.JPG''" by code_simp
  have f0: "fst (fst (render_images (example_frames 125) example_env True) ! 0) = ''save/TIMELAPSE001.JPG''"
    using run [of 0 125 True] e0 by simp
  have f1: "fst (fst (render_images (example_frames 125) example_env True) ! 124) = ''save/TIMELAPSE125.JPG''"
    using run [of 124 125 True] e1 by simp
  have f2: "fst (fst (render_images (example_frames 125) example_env False) ! 0) = ''save/TIMELAPSE001.JPG''"
    using run [of 0 125 False] e0 by simp
  have f3: "fst (fst (render_images (example_frames 125) example_env False) ! 124) = ''save/TIMELAPSE125.JPG''"
    using run [of 124 125 False] e1 by simp
  have f4: "fst (fst (render_images (example_frames 9) example_env True) ! 0) = ''save/TIMELAPSE1.JPG''"
    using run [of 0 9 True] e2 by simp
  have f5: "fst (fst (render_images (example_frames 9) example_env False) ! 8) = ''save/TIMELAPSE9.JPG''"
    using run [of 8 9 False] e3 by simp
  have f6: "fst (fst (render_images (example_frames 10) example_env True) ! 0) = ''save/TIMELAPSE01.JPG''"
    using run [of 0 10 True] e4 by simp
  have f7: "fst (fst (render_images (example_frames 10) example_env False) ! 9) = ''save/TIMELAPSE10.JPG''"
    using run [of 9 10 False] e5 by simp
  have f8: "fst (fst (render_images (example_frames 99) example_env True) ! 0) = ''save/TIMELAPSE01.JPG''"
    using run [of 0 99 True] e6 by simp
  have f9: "fst (fst (render_images (example_frames 99) example_env False) ! 98) = ''save/TIMELAPSE99.JPG''"
    using run [of 98 99 False] e7 by simp
  have f10: "fst (fst (render_images (example_frames 100) example_env True) ! 0) = ''save/TIMELAPSE001.JPG''"
    using run [of 0 100 True] e8 by simp
  have f11: "fst (fst (render_images (example_frames 100) example_env False) ! 99) = ''save/TIMELAPSE100.JPG''"
    using run [of 99 100 False] e9 by simp
  have f12: "fst (fst (render_images (example_frames 999) example_env True) ! 0) = ''save/TIMELAPSE001.JPG''"
    using run [of 0 999 True] e10 by simp
  have f13: "fst (fst (render_images (example_frames 999) example_env False) ! 998) = ''save/TIMELAPSE999.JPG''"
    using run [of 998 999 False] e11 by simp
  have f14: "fst (fst (render_images (example_frames 1000) example_env True) ! 0) = ''save/TIMELAPSE0001.JPG''"
    using run [of 0 1000 True] e12 by simp
  have f15: "fst (fst (render_images (example_frames 1000) example_env False) ! 999) = ''save/TIMELAPSE1000.JPG''"
    using run [of 999 1000 False] e13 by simp
  have idx: "map index (image_series (example_frames 125))
               = map Some [1..<Suc (length (image_series (example_frames 125)))]"
    by (simp add: example_frames_def processed_record_def comp_def del: upt_Suc)
  have g: "render_images (example_frames 125) example_env True
             = (fst (render_images (example_frames 125) example_env True), None)"
          "length (fst (render_images (example_frames 125) example_env True)) = 125"
    using run [of 0 125 True] by simp_all
  have c: "render_images (example_frames 125) example_env False
             = (fst (render_images (example_frames 125) example_env False), None)"
          "length (fst (render_images (example_frames 125) example_env False)) = 125"
    using run [of 0 125 False] by simp_all
  show ?thesis
    using idx g c f0 f1 f2 f3 f4 f5 f6 f7 f8 f9 f10 f11 f12 f13 f14 f15
    by (intro conjI)
qed

section \<open>Encoding\<close>

text \<open>
  Claim C9 (as amended). \<^verbatim>\<open>render_video\<close> runs the encoder command once and returns
  normally whatever exit status the command returns: the status is not read, nothing is
  raised for a nonzero status, and the command is not run again.
\<close>

theorem render_video_returns_normally:
  assumes "save_directory self = Some d"
  shows "render_video self env save_as
           = Inr [(ffmpeg_command self d save_as, os_system env (ffmpeg_command self d save_as))]"
  using assms by (simp add: render_video_def Let_def)

theorem render_video_returns_normally_witness:
  "save_directory example_self = Some ''save''
   \<and> os_system example_env (ffmpeg_command example_self ''save'' ''timelapse.mp4'') = 1
   \<and> render_video example_self example_env ''timelapse.mp4''
       = Inr [(ffmpeg_command example_self ''save'' ''timelapse.mp4'', 1)]"
  using render_video_returns_normally [of example_self "''save''" example_env "''timelapse.mp4''"]
  by (simp add: example_self_def example_env_def)

text \<open>The claim as stated fails: the encoder exits with status 1 and \<^verbatim>\<open>render_video\<close>
  raises nothing.\<close>

theorem render_video_nonzero_status_not_raised:
  "os_system example_env (ffmpeg_command example_self ''save'' ''timelapse.mp4'') \<noteq> 0
   \<and> \<not> isl (render_video example_self example_env ''timelapse.mp4'')"
  by (simp add: render_video_def example_self_def example_env_def Let_def)

end
